theory Spec2Isabelle
  imports Complex_Main "HOL-Library.Multiset"
begin

text \<open>
  A shallow embedding of the flashcard application: the answer matcher of the quiz and
  exam runners, the handlers of \<open>App.tsx\<close> that change the question bank and mirror it to
  the browser's storage, the grading pass of the exam runner, and the two import paths
  of the importer. What the host provides (\<open>toLowerCase\<close>, \<open>JSON.parse\<close>,
  \<open>JSON.stringify\<close>, \<open>crypto.randomUUID\<close>, the sort under a random comparator, the reply of
  the generative-text service) is a parameter of the function that uses it. The
  definitions come first, in the order of the source files; the theorems follow.
\<close>

section \<open>JavaScript strings\<close>

text \<open>
  A JavaScript string is a sequence of UTF-16 code units. A code unit is modelled by its
  numeric value, so that the characters the answer matcher names beyond ASCII (the
  ideographic comma U+3001, the Unicode white space) are single elements, as they are
  for the regular expressions of the source. An ASCII literal of the source is written
  \<open>str ''...''\<close>.
\<close>

type_synonym jschar = int
type_synonym jsstring = "jschar list"

definition str :: "string \<Rightarrow> jsstring" where
  "str s = map of_char s"

text \<open>
  White space as \<open>String.prototype.trim\<close> and the class \<open>\s\<close> of a regular expression
  both define it: the ECMAScript WhiteSpace and LineTerminator code points.
\<close>

definition isWhiteSpace :: "jschar \<Rightarrow> bool" where
  "isWhiteSpace u \<longleftrightarrow>
     (9 \<le> u \<and> u \<le> 13) \<or> u = 32 \<or> u = 160 \<or> u = 5760 \<or>
     (8192 \<le> u \<and> u \<le> 8202) \<or> u = 8232 \<or> u = 8233 \<or> u = 8239 \<or>
     u = 8287 \<or> u = 12288 \<or> u = 65279"

definition trim :: "jsstring \<Rightarrow> jsstring" where
  "trim s = rev (dropWhile isWhiteSpace (rev (dropWhile isWhiteSpace s)))"

text \<open>The character classes \<open>[A-Za-z]\<close>, \<open>[A-Za-z0-9]\<close> and \<open>[\.\<dots>\s]\<close> (full stop,
  ideographic comma U+3001, white space) of the regular expressions in \<open>isMatch\<close>.\<close>

definition isLetter :: "jschar \<Rightarrow> bool" where
  "isLetter u \<longleftrightarrow> (65 \<le> u \<and> u \<le> 90) \<or> (97 \<le> u \<and> u \<le> 122)"

definition isAlnum :: "jschar \<Rightarrow> bool" where
  "isAlnum u \<longleftrightarrow> isLetter u \<or> (48 \<le> u \<and> u \<le> 57)"

definition isSeparator :: "jschar \<Rightarrow> bool" where
  "isSeparator u \<longleftrightarrow> u = 46 \<or> u = 12289 \<or> isWhiteSpace u"

text \<open>
  \<open>toUpperCase\<close> is called by \<open>isMatch\<close> on strings made of one ASCII letter only (the
  capture group of \<open>getPrefix\<close>, and a string that passed \<open>/^[A-Za-z]$/\<close>); on the ASCII
  letters it is the map below. \<open>toLowerCase\<close> is called on whole answers, where the
  host applies the Unicode case mapping: it is a parameter \<open>lc\<close> of the matcher, and
  \<open>toLowerCase_ascii\<close> is the mapping on ASCII text, used to run the matcher.
\<close>

definition toUpperCase :: "jsstring \<Rightarrow> jsstring" where
  "toUpperCase s = map (\<lambda>u. if 97 \<le> u \<and> u \<le> 122 then u - 32 else u) s"

definition toLowerCase_ascii :: "jsstring \<Rightarrow> jsstring" where
  "toLowerCase_ascii s = map (\<lambda>u. if 65 \<le> u \<and> u \<le> 90 then u + 32 else u) s"

section \<open>The answer matcher (QuizRunner.tsx and ExamRunner.tsx, \<open>isMatch\<close>)\<close>

text \<open>\<open>s.match(/^([A-Za-z])[\.\<dots>\s]/)\<close>: a letter followed by a separator; the result
  is the letter in upper case, or null.\<close>

fun getPrefix :: "jsstring \<Rightarrow> jsstring option" where
  "getPrefix (l # p # rest) =
     (if isLetter l \<and> isSeparator p then Some (toUpperCase [l]) else None)"
| "getPrefix s = None"

text \<open>
  \<open>s.replace(/^([A-Za-z0-9]+)[\.\<dots>\s]+/, '').trim()\<close>. The two classes are disjoint,
  so the expression matches exactly when the longest run of letters and digits at the
  start is not empty and is followed by a separator; the match then extends over the
  longest run of separators.
\<close>

definition getContent :: "jsstring \<Rightarrow> jsstring" where
  "getContent s =
     (let r = dropWhile isAlnum s in
      if takeWhile isAlnum s \<noteq> [] \<and> takeWhile isSeparator r \<noteq> []
      then trim (dropWhile isSeparator r)
      else trim s)"

text \<open>\<open>/^[A-Za-z]$/.test(s)\<close>\<close>

fun isSingleLetter :: "jsstring \<Rightarrow> bool" where
  "isSingleLetter [l] = isLetter l"
| "isSingleLetter s = False"

definition isMatch :: "(jsstring \<Rightarrow> jsstring) \<Rightarrow> jsstring \<Rightarrow> jsstring \<Rightarrow> bool" where
  "isMatch lc option correctAnswer =
     (if option = [] \<or> correctAnswer = [] then False
      else
        let o' = trim option; c = trim correctAnswer in
        if o' = c then True
        else if lc o' = lc c then True
        else
          let oPrefix = getPrefix o'; cPrefix = getPrefix c in
          if isSingleLetter c \<and> oPrefix = Some (toUpperCase c) then True
          else if isSingleLetter o' \<and> cPrefix = Some (toUpperCase o') then True
          else
            let oContent = getContent o'; cContent = getContent c in
            if oContent \<noteq> [] \<and> cContent \<noteq> [] \<and> lc oContent = lc cContent then True
            else False)"

text \<open>
  The matcher as the specification words it: true exactly when, after trimming, the
  strings are equal ignoring case, or one is a single letter equal (ignoring case) to
  the letter prefix of the other, or they are equal ignoring case after stripping
  their letter/number prefixes; false whenever either string is empty.
\<close>

definition isMatch_spec :: "(jsstring \<Rightarrow> jsstring) \<Rightarrow> jsstring \<Rightarrow> jsstring \<Rightarrow> bool" where
  "isMatch_spec lc option correctAnswer \<longleftrightarrow>
     option \<noteq> [] \<and> correctAnswer \<noteq> [] \<and>
     (let o' = trim option; c = trim correctAnswer in
        lc o' = lc c \<or>
        (isSingleLetter c \<and> getPrefix o' = Some (toUpperCase c)) \<or>
        (isSingleLetter o' \<and> getPrefix c = Some (toUpperCase o')) \<or>
        lc (getContent o') = lc (getContent c))"


section \<open>Questions (types.ts)\<close>

text \<open>\<open>QuestionType\<close> is a string enum: at run time a question's type is a string.\<close>

definition MultipleChoice :: jsstring where
  "MultipleChoice = str ''multiple-choice''"

definition TrueFalse :: jsstring where
  "TrueFalse = str ''true-false''"

definition OpenEnded :: jsstring where
  "OpenEnded = str ''open-ended''"

text \<open>
  The interface \<open>Question\<close>. Its optional members (\<open>options?\<close>, \<open>explanation?\<close>, \<open>tags?\<close>,
  \<open>mastered?\<close>, \<open>inMistakeBook?\<close>) are options, \<open>None\<close> for an absent member. The
  members \<open>id\<close>, \<open>type\<close> and \<open>text\<close> are the fields \<open>qid\<close>, \<open>qtype\<close> and \<open>qtext\<close>.
\<close>

record question =
  qid :: jsstring
  qtype :: jsstring
  qtext :: jsstring
  options :: "jsstring list option"
  correctAnswer :: jsstring
  explanation :: "jsstring option"
  tags :: "jsstring list option"
  mastered :: "bool option"
  inMistakeBook :: "bool option"

datatype AppMode = Dashboard | Quiz | Import | MistakeNotebook | MasteredNotebook | MockExam

section \<open>The view-state container (App.tsx)\<close>

definition LOCAL_STORAGE_KEY :: jsstring where
  "LOCAL_STORAGE_KEY = str ''flashmaster_questions''"

text \<open>
  The state of \<open>AppContent\<close> that the handlers below read and write, together with the
  browser's \<open>localStorage\<close>, a map from keys to strings.
\<close>

record app =
  questions :: "question list"
  mode :: AppMode
  examQuestions :: "question list"
  localStorage :: "jsstring \<rightharpoonup> jsstring"

text \<open>
  \<open>JSON.stringify\<close> is the host's serialiser; it is the parameter \<open>stringify\<close> of every
  handler that saves.
\<close>

definition saveQuestions :: "(question list \<Rightarrow> jsstring) \<Rightarrow> question list \<Rightarrow> app \<Rightarrow> app" where
  "saveQuestions stringify newQuestions s =
     s\<lparr>questions := newQuestions,
       localStorage := (localStorage s)(LOCAL_STORAGE_KEY \<mapsto> stringify newQuestions)\<rparr>"

definition handleImport :: "(question list \<Rightarrow> jsstring) \<Rightarrow> question list \<Rightarrow> app \<Rightarrow> app" where
  "handleImport stringify newQs s =
     (let updated = questions s @ newQs in
      (saveQuestions stringify updated s)\<lparr>mode := Dashboard\<rparr>)"

text \<open>\<open>confirmed\<close> is the answer of the \<open>confirm\<close> dialogue.\<close>

definition handleDelete :: "(question list \<Rightarrow> jsstring) \<Rightarrow> bool \<Rightarrow> jsstring \<Rightarrow> app \<Rightarrow> app" where
  "handleDelete stringify confirmed i s =
     (if \<not> confirmed then s
      else
        let updated = filter (\<lambda>q. qid q \<noteq> i) (questions s) in
        saveQuestions stringify updated s)"

definition handleMasterQuestion :: "(question list \<Rightarrow> jsstring) \<Rightarrow> jsstring \<Rightarrow> app \<Rightarrow> app" where
  "handleMasterQuestion stringify i s =
     (let updated =
        map (\<lambda>q. if qid q = i then q\<lparr>mastered := Some True, inMistakeBook := Some False\<rparr> else q)
          (questions s) in
      saveQuestions stringify updated s)"

definition handleMistake :: "(question list \<Rightarrow> jsstring) \<Rightarrow> jsstring \<Rightarrow> app \<Rightarrow> app" where
  "handleMistake stringify i s =
     (let updated =
        map (\<lambda>q. if qid q = i then q\<lparr>inMistakeBook := Some True, mastered := Some False\<rparr> else q)
          (questions s) in
      saveQuestions stringify updated s)"

text \<open>
  \<open>[...questions].sort(() => 0.5 - Math.random())\<close>: the host's sort under a comparator
  that answers at random. What it returns is the parameter \<open>sortRandomly\<close>; the
  theorems about \<open>startMockExam\<close> ask of it only that it rearranges its argument.
\<close>

definition startMockExam :: "(question list \<Rightarrow> question list) \<Rightarrow> app \<Rightarrow> app" where
  "startMockExam sortRandomly s =
     (if length (questions s) = 0 then s
      else
        let count = min 30 (length (questions s));
            shuffled = sortRandomly (questions s);
            selected = take count shuffled
        in s\<lparr>examQuestions := selected, mode := MockExam\<rparr>)"

definition handleExamComplete :: "(question list \<Rightarrow> jsstring) \<Rightarrow> jsstring list \<Rightarrow> app \<Rightarrow> app" where
  "handleExamComplete stringify wrongIds s =
     (if length wrongIds = 0 then s
      else
        let updated =
          map (\<lambda>q. if qid q \<in> set wrongIds
                    then q\<lparr>inMistakeBook := Some True, mastered := Some False\<rparr> else q)
            (questions s) in
        saveQuestions stringify updated s)"

section \<open>JavaScript numbers\<close>

text \<open>
  A JavaScript number is an IEEE 754 binary64 value, and \<open>/\<close> and \<open>*\<close> round their exact
  result to the nearest such value, ties to the even significand. The finite values are
  rationals. \<open>ilog2 x\<close> is the exponent \<open>e\<close> with \<open>2^e \<le> x < 2^(e+1)\<close> of a positive \<open>x\<close>;
  binary64 keeps 53 significant bits, so around \<open>x\<close> its values are the multiples of
  \<open>2^(e-52)\<close>, and below \<open>2^-1022\<close> (the subnormal range) the multiples of \<open>2^-1074\<close>.
  \<open>fl\<close> rounds a rational to binary64. Overflow to Infinity is not modelled: the
  operands of \<open>handleSubmit\<close> are at most 100.
\<close>

function ilog2 :: "rat \<Rightarrow> int" where
  "ilog2 x =
     (if x \<le> 0 then 0
      else if 2 \<le> x then ilog2 (x / 2) + 1
      else if x < 1 then ilog2 (x * 2) - 1
      else 0)"
  by pat_completeness auto
termination
proof (relation "measure (\<lambda>x. if 1 \<le> x then nat \<lfloor>x\<rfloor> else nat \<lceil>1 / x\<rceil> + 1)")
  show "wf (measure (\<lambda>x::rat. if 1 \<le> x then nat \<lfloor>x\<rfloor> else nat \<lceil>1 / x\<rceil> + 1))"
    by simp
next
  fix x :: rat
  assume "\<not> x \<le> 0" "2 \<le> x"
  then have "\<lfloor>x / 2\<rfloor> < \<lfloor>x\<rfloor>" "1 \<le> x / 2" "1 \<le> x" "0 < \<lfloor>x\<rfloor>"
    by (auto simp: floor_less_iff le_floor_iff) linarith+
  then show "(x / 2, x) \<in> measure (\<lambda>x. if 1 \<le> x then nat \<lfloor>x\<rfloor> else nat \<lceil>1 / x\<rceil> + 1)"
    by simp
next
  fix x :: rat
  assume a: "\<not> x \<le> 0" "\<not> 2 \<le> x" "x < 1"
  show "(x * 2, x) \<in> measure (\<lambda>x. if 1 \<le> x then nat \<lfloor>x\<rfloor> else nat \<lceil>1 / x\<rceil> + 1)"
  proof (cases "1 \<le> x * 2")
    case True
    from a have "x * 2 < 2" by simp
    with True have "\<lfloor>x * 2\<rfloor> = 1" by (simp add: floor_eq_iff)
    moreover from a have "0 < \<lceil>1 / x\<rceil>" by (simp add: less_ceiling_iff)
    ultimately show ?thesis using a True by simp
  next
    case False
    with a have h: "2 < 1 / x" by (simp add: field_simps)
    define y where "y = 1 / x"
    have "\<lceil>y / 2\<rceil> < \<lceil>y\<rceil>"
    proof -
      have 1: "y \<le> of_int \<lceil>y\<rceil>" by (rule le_of_int_ceiling)
      with h have "(2::rat) < of_int \<lceil>y\<rceil>" unfolding y_def by linarith
      then have "2 < \<lceil>y\<rceil>" by simp
      then have "of_int \<lceil>y\<rceil> / 2 \<le> (of_int (\<lceil>y\<rceil> - 1) :: rat)" by simp
      with 1 have "y / 2 \<le> of_int (\<lceil>y\<rceil> - 1)" by linarith
      then have "\<lceil>y / 2\<rceil> \<le> \<lceil>y\<rceil> - 1" by (simp only: ceiling_le_iff)
      then show ?thesis by simp
    qed
    then have "\<lceil>1 / x / 2\<rceil> < \<lceil>1 / x\<rceil>" by (simp add: y_def)
    moreover have "0 < \<lceil>1 / x\<rceil>" using a by (simp add: less_ceiling_iff)
    ultimately show ?thesis using a False by (simp add: field_simps)
  qed
qed

declare ilog2.simps [simp del]

definition roundHalfEven :: "rat \<Rightarrow> int" where
  "roundHalfEven m =
     (let f = \<lfloor>m\<rfloor>; d = m - of_int f in
      if d < 1 / 2 then f
      else if 1 / 2 < d then f + 1
      else if even f then f else f + 1)"

definition fl :: "rat \<Rightarrow> rat" where
  "fl x =
     (if x = 0 then 0
      else
        let e = max (ilog2 \<bar>x\<bar>) (- 1022);
            u = 2 powi (e - 52)
        in of_int (roundHalfEven (x / u)) * u)"

text \<open>\<open>Math.round\<close>: the nearest integer, a tie going up.\<close>

definition Math_round :: "rat \<Rightarrow> int" where
  "Math_round x = \<lfloor>x + 1 / 2\<rfloor>"

text \<open>
  \<open>Math.round((correctCount / questions.length) * 100)\<close>. With no question the quotient
  is \<open>0 / 0\<close>, and the result is NaN: \<open>None\<close>.
\<close>

definition percentage :: "nat \<Rightarrow> nat \<Rightarrow> int option" where
  "percentage correctCount n =
     (if n = 0 then None
      else Some (Math_round (fl (fl (of_nat correctCount / of_nat n) * 100))))"

section \<open>The exam runner (ExamRunner.tsx)\<close>

text \<open>The exception that JavaScript throws on a read or a call that a value does not allow.\<close>

datatype exn = TypeError

record examRunner =
  currentIndex :: nat
  answers :: "jsstring \<rightharpoonup> jsstring"
  isSubmitted :: bool
  wrongIds :: "jsstring list"
  score :: "int option"

text \<open>The state a freshly mounted runner starts from (the \<open>useState\<close> initial values).\<close>

definition initialRunner :: examRunner where
  "initialRunner =
     \<lparr>currentIndex = 0, answers = Map.empty, isSubmitted = False, wrongIds = [], score = Some 0\<rparr>"

text \<open>\<open>handleOptionSelect\<close>, on the question \<open>currentQuestion\<close> being shown.\<close>

definition handleOptionSelect :: "question \<Rightarrow> jsstring \<Rightarrow> examRunner \<Rightarrow> examRunner" where
  "handleOptionSelect currentQuestion opt r =
     (if isSubmitted r then r
      else r\<lparr>answers := (answers r)(qid currentQuestion \<mapsto> opt)\<rparr>)"

text \<open>
  \<open>answers\<close> is a plain object (\<open>useState<Record<string, string>>({})\<close>): the map above
  holds its own properties, the answers recorded, and a read \<open>answers[q.id]\<close> that finds no
  own property goes on to \<open>Object.prototype\<close>. There the names below are defined, each with
  a function or an object as its value; for any other name the read gives undefined.
\<close>

datatype jsvalue = Undefined | StringValue jsstring | ObjectValue

definition objectPrototype :: "jsstring list" where
  "objectPrototype =
     [str ''constructor'', str ''hasOwnProperty'', str ''isPrototypeOf'',
      str ''propertyIsEnumerable'', str ''toLocaleString'', str ''toString'', str ''valueOf'',
      str ''__proto__'', str ''__defineGetter__'', str ''__defineSetter__'',
      str ''__lookupGetter__'', str ''__lookupSetter__'']"

definition getProperty :: "(jsstring \<rightharpoonup> jsstring) \<Rightarrow> jsstring \<Rightarrow> jsvalue" where
  "getProperty obj k =
     (case obj k of
        Some v \<Rightarrow> StringValue v
      | None \<Rightarrow> if k \<in> set objectPrototype then ObjectValue else Undefined)"

text \<open>
  The condition \<open>userAnswer && isMatch(userAnswer, q.correctAnswer)\<close> of the grading
  loop, where \<open>userAnswer = answers[q.id]\<close>. Undefined and the empty string are falsy. A
  function or an object is truthy, and \<open>isMatch\<close> is called on it: it returns false at its
  first line when the correct answer is empty, and otherwise \<open>option.trim()\<close> throws a
  TypeError, since such a value has no method \<open>trim\<close>.
\<close>

definition gradeAnswer ::
    "(jsstring \<Rightarrow> jsstring) \<Rightarrow> (jsstring \<rightharpoonup> jsstring) \<Rightarrow> question \<Rightarrow> exn + bool" where
  "gradeAnswer lc ans q =
     (case getProperty ans (qid q) of
        Undefined \<Rightarrow> Inr False
      | StringValue userAnswer \<Rightarrow>
          Inr (userAnswer \<noteq> [] \<and> isMatch lc userAnswer (correctAnswer q))
      | ObjectValue \<Rightarrow> if correctAnswer q = [] then Inr False else Inl TypeError)"

text \<open>
  \<open>questions.forEach\<close> on the accumulators \<open>correctCount\<close> and \<open>wrong\<close>; an exception
  thrown by the body ends the loop.
\<close>

fun gradeLoop ::
    "(jsstring \<Rightarrow> jsstring) \<Rightarrow> (jsstring \<rightharpoonup> jsstring) \<Rightarrow> question list \<Rightarrow>
     nat \<Rightarrow> jsstring list \<Rightarrow> exn + nat \<times> jsstring list" where
  "gradeLoop lc ans [] correctCount wrong = Inr (correctCount, wrong)"
| "gradeLoop lc ans (q # qs) correctCount wrong =
     (case gradeAnswer lc ans q of
        Inl e \<Rightarrow> Inl e
      | Inr correct \<Rightarrow>
          if correct then gradeLoop lc ans qs (correctCount + 1) wrong
          else gradeLoop lc ans qs correctCount (wrong @ [qid q]))"

definition gradeAll ::
    "(jsstring \<Rightarrow> jsstring) \<Rightarrow> (jsstring \<rightharpoonup> jsstring) \<Rightarrow> question list \<Rightarrow>
     exn + nat \<times> jsstring list" where
  "gradeAll lc ans qs = gradeLoop lc ans qs 0 []"

text \<open>
  \<open>handleSubmit\<close> returns the runner's new state and the list it hands to \<open>onComplete\<close>.
  When the grading loop throws, the exception leaves \<open>handleSubmit\<close> before any state is
  set and before \<open>onComplete\<close> is called.
\<close>

definition handleSubmit ::
    "(jsstring \<Rightarrow> jsstring) \<Rightarrow> question list \<Rightarrow> examRunner \<Rightarrow>
     exn + examRunner \<times> jsstring list" where
  "handleSubmit lc qs r =
     (case gradeAll lc (answers r) qs of
        Inl e \<Rightarrow> Inl e
      | Inr (correctCount, wrong) \<Rightarrow>
          let finalScore = percentage correctCount (length qs) in
          Inr (r\<lparr>score := finalScore, wrongIds := wrong, isSubmitted := True,
                 currentIndex := 0\<rparr>,
               wrong))"

text \<open>
  \<open>App\<close> mounts the runner on \<open>examQuestions\<close> with \<open>onComplete = handleExamComplete\<close>:
  submitting the exam grades it and records the missed questions in the bank. When
  \<open>handleSubmit\<close> throws, the click handler ends there: the application and the runner
  keep the state they had.
\<close>

definition submitExam ::
    "(question list \<Rightarrow> jsstring) \<Rightarrow> (jsstring \<Rightarrow> jsstring) \<Rightarrow> app \<Rightarrow> examRunner \<Rightarrow>
     app \<times> examRunner" where
  "submitExam stringify lc s r =
     (case handleSubmit lc (examQuestions s) r of
        Inl e \<Rightarrow> (s, r)
      | Inr (r', wrong) \<Rightarrow> (handleExamComplete stringify wrong s, r'))"

section \<open>The generative-text service (geminiService.ts)\<close>

text \<open>
  The strings shown to the user are Chinese sentences; each is a constructor here.
  \<open>JsonInvalid\<close>: the JSON is malformed. \<open>AiNoQuestions\<close>: the service produced no
  question. \<open>AiFormatError\<close> and \<open>AiParseFailed\<close>: what \<open>generateQuestionsFromTopic\<close> and
  \<open>parseRawTextToQuestions\<close> throw when the reply cannot be read. \<open>ServiceError m\<close>: the
  message \<open>m\<close> of an error thrown by \<open>callGemini\<close>.
\<close>

datatype message = JsonInvalid | AiNoQuestions | AiFormatError | AiParseFailed | ServiceError jsstring

text \<open>
  A question as the service is told to return it (the structure given in the prompts).
  The object spread copies any further member as well, but \<open>id\<close>, \<open>mastered\<close> and
  \<open>inMistakeBook\<close> are overwritten by the members that follow the spread.
\<close>

record ai_record =
  a_type :: jsstring
  a_text :: jsstring
  a_options :: "jsstring list option"
  a_correctAnswer :: jsstring
  a_explanation :: "jsstring option"
  a_tags :: "jsstring list option"

text \<open>
  The value \<open>JSON.parse\<close> returns for a reply. An array holds question records (the
  source reads its elements through the interface \<open>Question\<close>); an object is the list
  of its members in the order of the text.
\<close>

datatype 'r jsval =
    JNull
  | JBool bool
  | JNum rat
  | JStr jsstring
  | JArr "'r list"
  | JObj "(jsstring \<times> 'r jsval) list"

text \<open>
  \<open>parsed.questions\<close>: reading a member of null throws; a primitive or an array has no
  such member (undefined, \<open>None\<close>); of a repeated member of an object the last one counts.
\<close>

fun questionsMember :: "'r jsval \<Rightarrow> exn + 'r jsval option" where
  "questionsMember JNull = Inl TypeError"
| "questionsMember (JObj kvs) = Inr (map_of (rev kvs) (str ''questions''))"
| "questionsMember v = Inr None"

fun truthy :: "'r jsval \<Rightarrow> bool" where
  "truthy JNull = False"
| "truthy (JBool b) = b"
| "truthy (JNum n) = (n \<noteq> 0)"
| "truthy (JStr s) = (s \<noteq> [])"
| "truthy (JArr xs) = True"
| "truthy (JObj kvs) = True"

text \<open>
  \<open>cleanJsonString\<close>. The expression \<open>/^```(?:json)?\s*([\s\S]*?)\s*```$/i\<close> matches a
  text that opens with three backticks and, after an optional \<open>json\<close> in any case and
  white space, still ends with three backticks; the lazy group is then what lies
  between, without the white space before the closing backticks.
\<close>

definition fence :: jsstring where
  "fence = str ''```''"

definition fencedBody :: "jsstring \<Rightarrow> jsstring option" where
  "fencedBody text =
     (if take 3 text = fence then
        let r1 = drop 3 text;
            r2 = (if toLowerCase_ascii (take 4 r1) = str ''json'' then drop 4 r1 else r1);
            r3 = dropWhile isWhiteSpace r2
        in if 3 \<le> length r3 \<and> drop (length r3 - 3) r3 = fence
           then Some (rev (dropWhile isWhiteSpace (rev (take (length r3 - 3) r3))))
           else None
      else None)"

definition cleanJsonString :: "jsstring \<Rightarrow> jsstring" where
  "cleanJsonString text =
     (if text = [] then str ''{}''
      else case fencedBody text of
             Some body \<Rightarrow> if body \<noteq> [] then body else text
           | None \<Rightarrow> text)"

text \<open>
  One element of \<open>questions.map\<close>, with the identifier \<open>crypto.randomUUID()\<close> returned
  for it.
\<close>

definition aiQuestion :: "jsstring \<Rightarrow> ai_record \<Rightarrow> question" where
  "aiQuestion uuid q =
     \<lparr>qid = uuid, qtype = a_type q, qtext = a_text q,
      options = (if a_type q = OpenEnded then Some [] else a_options q),
      correctAnswer = a_correctAnswer q, explanation = a_explanation q, tags = a_tags q,
      mastered = Some False, inMistakeBook = Some False\<rparr>"

text \<open>
  The \<open>try\<close> block that \<open>generateQuestionsFromTopic\<close> and \<open>parseRawTextToQuestions\<close> share
  word for word; they differ in the message \<open>failure\<close> that their \<open>catch\<close> throws.
  \<open>JSON.parse\<close> is the host's: \<open>parse\<close> gives \<open>None\<close> where it throws. \<open>randomUUID k\<close> is
  the identifier the \<open>k\<close>-th call of \<open>crypto.randomUUID()\<close> returns.
\<close>

definition readReply ::
    "(jsstring \<Rightarrow> ai_record jsval option) \<Rightarrow> (nat \<Rightarrow> jsstring) \<Rightarrow> message \<Rightarrow> jsstring \<Rightarrow>
     message + question list" where
  "readReply parse randomUUID failure response =
     (case parse (cleanJsonString response) of
        None \<Rightarrow> Inl failure
      | Some parsed \<Rightarrow>
          (case questionsMember parsed of
             Inl e \<Rightarrow> Inl failure
           | Inr member \<Rightarrow>
               let qs = (case member of
                           None \<Rightarrow> JArr []
                         | Some v \<Rightarrow> if truthy v then v else JArr [])
               in (case qs of
                     JArr records \<Rightarrow>
                       Inr (map (\<lambda>(k, q). aiQuestion (randomUUID k) q) (enumerate 0 records))
                   | _ \<Rightarrow> Inl failure)))"

text \<open>
  \<open>callGemini\<close> either throws an error with a message or returns the reply's text;
  its outcome is the argument \<open>reply\<close>.
\<close>

definition generateQuestionsFromTopic ::
    "(jsstring \<Rightarrow> ai_record jsval option) \<Rightarrow> (nat \<Rightarrow> jsstring) \<Rightarrow> jsstring + jsstring \<Rightarrow>
     message + question list" where
  "generateQuestionsFromTopic parse randomUUID reply =
     (case reply of
        Inl m \<Rightarrow> Inl (ServiceError m)
      | Inr response \<Rightarrow> readReply parse randomUUID AiFormatError response)"

definition parseRawTextToQuestions ::
    "(jsstring \<Rightarrow> ai_record jsval option) \<Rightarrow> (nat \<Rightarrow> jsstring) \<Rightarrow> jsstring + jsstring \<Rightarrow>
     message + question list" where
  "parseRawTextToQuestions parse randomUUID reply =
     (case reply of
        Inl m \<Rightarrow> Inl (ServiceError m)
      | Inr response \<Rightarrow> readReply parse randomUUID AiParseFailed response)"

section \<open>The importer (Importer.tsx)\<close>

datatype tab = JsonTab | AiText | AiTopic

record importer =
  activeTab :: tab
  inputText :: jsstring
  isLoading :: bool
  error :: "message option"

text \<open>
  A question record as a JSON payload may give it: \<open>handleJsonImport\<close> supplies the
  identifier and the type when they are absent (or empty), and overwrites the flags.
\<close>

record json_record =
  j_id :: "jsstring option"
  j_type :: "jsstring option"
  j_text :: jsstring
  j_options :: "jsstring list option"
  j_correctAnswer :: jsstring
  j_explanation :: "jsstring option"
  j_tags :: "jsstring list option"
  j_mastered :: "bool option"
  j_inMistakeBook :: "bool option"

text \<open>
  \<open>JSON.parse(inputText)\<close>, read through the interface \<open>Question\<close>: it throws, or gives an
  array of records, or a single record.
\<close>

datatype parsed = Throws | IsArray "json_record list" | NotArray json_record

definition jsonQuestion :: "jsstring \<Rightarrow> json_record \<Rightarrow> question" where
  "jsonQuestion i q =
     \<lparr>qid = i,
      qtype = (case j_type q of None \<Rightarrow> OpenEnded | Some t \<Rightarrow> if t \<noteq> [] then t else OpenEnded),
      qtext = j_text q, options = j_options q, correctAnswer = j_correctAnswer q,
      explanation = j_explanation q, tags = j_tags q,
      mastered = Some False, inMistakeBook = Some False\<rparr>"

text \<open>
  \<open>questions.map(...)\<close> of \<open>handleJsonImport\<close>: \<open>q.id || crypto.randomUUID()\<close> draws an
  identifier only for a record without one; \<open>k\<close> counts the identifiers drawn so far.
\<close>

fun validQuestions :: "(nat \<Rightarrow> jsstring) \<Rightarrow> nat \<Rightarrow> json_record list \<Rightarrow> question list" where
  "validQuestions randomUUID k [] = []"
| "validQuestions randomUUID k (q # qs) =
     (case j_id q of
        None \<Rightarrow> jsonQuestion (randomUUID k) q # validQuestions randomUUID (Suc k) qs
      | Some i \<Rightarrow>
          if i \<noteq> [] then jsonQuestion i q # validQuestions randomUUID k qs
          else jsonQuestion (randomUUID k) q # validQuestions randomUUID (Suc k) qs)"

definition handleJsonImport ::
    "(question list \<Rightarrow> jsstring) \<Rightarrow> (jsstring \<Rightarrow> parsed) \<Rightarrow> (nat \<Rightarrow> jsstring) \<Rightarrow>
     importer \<Rightarrow> app \<Rightarrow> importer \<times> app" where
  "handleJsonImport stringify parse randomUUID imp s =
     (case parse (inputText imp) of
        Throws \<Rightarrow> (imp\<lparr>error := Some JsonInvalid\<rparr>, s)
      | IsArray records \<Rightarrow>
          (imp\<lparr>error := None\<rparr>, handleImport stringify (validQuestions randomUUID 0 records) s)
      | NotArray record \<Rightarrow>
          (imp\<lparr>error := None\<rparr>, handleImport stringify (validQuestions randomUUID 0 [record]) s))"

definition handleAiProcessing ::
    "(question list \<Rightarrow> jsstring) \<Rightarrow> (jsstring \<Rightarrow> ai_record jsval option) \<Rightarrow> (nat \<Rightarrow> jsstring) \<Rightarrow>
     jsstring + jsstring \<Rightarrow> importer \<Rightarrow> app \<Rightarrow> importer \<times> app" where
  "handleAiProcessing stringify parse randomUUID reply imp s =
     (if trim (inputText imp) = [] then (imp, s)
      else
        case (if activeTab imp = AiText
              then parseRawTextToQuestions parse randomUUID reply
              else generateQuestionsFromTopic parse randomUUID reply) of
          Inr qs \<Rightarrow>
            if length qs = 0 then (imp\<lparr>isLoading := False, error := Some AiNoQuestions\<rparr>, s)
            else (imp\<lparr>isLoading := False, error := None\<rparr>, handleImport stringify qs s)
        | Inl m \<Rightarrow> (imp\<lparr>isLoading := False, error := Some m\<rparr>, s))"

section \<open>Sample data\<close>

text \<open>
  A small bank on which the handlers are run. \<open>stringifyIds\<close> stands in for the host's
  \<open>JSON.stringify\<close> there, and \<open>toLowerCase_ascii\<close> for its \<open>toLowerCase\<close>.
\<close>

definition stringifyIds :: "question list \<Rightarrow> jsstring" where
  "stringifyIds qs = concat (map qid qs)"

definition sampleQuestion :: "string \<Rightarrow> string \<Rightarrow> question" where
  "sampleQuestion i a =
     \<lparr>qid = str i, qtype = MultipleChoice, qtext = str ''Pick one'',
      options = Some [str ''A. Apple'', str ''B. Pear''], correctAnswer = str a,
      explanation = None, tags = None, mastered = None, inMistakeBook = None\<rparr>"

definition sampleApp :: app where
  "sampleApp =
     \<lparr>questions = [(sampleQuestion ''q1'' ''A'')\<lparr>inMistakeBook := Some True\<rparr>,
                   (sampleQuestion ''q2'' ''B. Pear'')\<lparr>mastered := Some True\<rparr>,
                   sampleQuestion ''q3'' ''Pear''],
      mode = Dashboard,
      examQuestions = [sampleQuestion ''q3'' ''Pear'', sampleQuestion ''q1'' ''A'',
                       sampleQuestion ''q2'' ''B. Pear''],
      localStorage = Map.empty\<rparr>"

text \<open>A runner in which \<open>q3\<close> was answered rightly, \<open>q1\<close> wrongly and \<open>q2\<close> not at all.\<close>

definition sampleRunner :: examRunner where
  "sampleRunner =
     handleOptionSelect (sampleQuestion ''q1'' ''A'') (str ''B. Pear'')
       (handleOptionSelect (sampleQuestion ''q3'' ''Pear'') (str ''B. Pear'') initialRunner)"

text \<open>A bank of forty questions, more than a mock exam takes.\<close>

definition largeApp :: app where
  "largeApp =
     sampleApp\<lparr>questions := map (\<lambda>n. (sampleQuestion ''q'' ''A'')\<lparr>qid := [int n]\<rparr>) [0..<40]\<rparr>"



text \<open>
  A bank whose only question was imported under the identifier \<open>constructor\<close>, and the
  exam on it.
\<close>

definition protoApp :: app where
  "protoApp =
     \<lparr>questions = [sampleQuestion ''constructor'' ''A''], mode = MockExam,
      examQuestions = [sampleQuestion ''constructor'' ''A''], localStorage = Map.empty\<rparr>"

text \<open>The payloads and replies the importer is run on.\<close>

definition sampleRecord :: "jsstring option \<Rightarrow> jsstring option \<Rightarrow> json_record" where
  "sampleRecord i t =
     \<lparr>j_id = i, j_type = t, j_text = str ''What is 2 + 2?'', j_options = None,
      j_correctAnswer = str ''4'', j_explanation = None, j_tags = None,
      j_mastered = Some True, j_inMistakeBook = Some True\<rparr>"

definition sampleRecords :: "json_record list" where
  "sampleRecords =
     [sampleRecord (Some (str ''n1'')) (Some TrueFalse), sampleRecord None None,
      sampleRecord (Some []) (Some [])]"

definition sampleUUID :: "nat \<Rightarrow> jsstring" where
  "sampleUUID k = str ''uuid-'' @ [48 + int k]"

definition sampleImporter :: importer where
  "sampleImporter =
     \<lparr>activeTab = AiTopic, inputText = str ''fractions'', isLoading = False, error = None\<rparr>"

definition sampleParse :: "jsstring \<Rightarrow> ai_record jsval option" where
  "sampleParse text =
     (if text = str ''{}'' then Some (JObj [])
      else if text = str ''{\"questions\": 5}'' then Some (JObj [(str ''questions'', JNum 5)])
      else None)"

section \<open>Notions of the specification\<close>

text \<open>
  The words of the specification about the answer matcher. \<open>trimsTo s t\<close>: \<open>t\<close> is \<open>s\<close>
  without the white space at its two ends.
\<close>

definition trimsTo :: "jsstring \<Rightarrow> jsstring \<Rightarrow> bool" where
  "trimsTo s t \<longleftrightarrow>
     (\<exists>l r. s = l @ t @ r \<and> list_all isWhiteSpace l \<and> list_all isWhiteSpace r \<and>
            (t = [] \<or> \<not> isWhiteSpace (hd t) \<and> \<not> isWhiteSpace (last t)))"

text \<open>
  A letter/number prefix: a non-empty run of letters and digits followed by a separator
  (a full stop, an ideographic comma or white space), as in \<open>A.\<close> or \<open>12. \<close>.
  \<open>stripsTo s t\<close>: \<open>t\<close> is what is left of \<open>s\<close>, trimmed, after its letter/number
  prefix and all the separators that follow it; a string without such a prefix is only
  trimmed.
\<close>

definition hasLabel :: "jsstring \<Rightarrow> bool" where
  "hasLabel s \<longleftrightarrow>
     (\<exists>p sep rest. s = p @ sep # rest \<and> p \<noteq> [] \<and> list_all isAlnum p \<and> isSeparator sep)"

definition stripsTo :: "jsstring \<Rightarrow> jsstring \<Rightarrow> bool" where
  "stripsTo s t \<longleftrightarrow>
     (\<exists>p seps rest. s = p @ seps @ rest \<and> p \<noteq> [] \<and> list_all isAlnum p \<and>
         seps \<noteq> [] \<and> list_all isSeparator seps \<and> (rest = [] \<or> \<not> isSeparator (hd rest)) \<and>
         trimsTo rest t) \<or>
     (\<not> hasLabel s \<and> trimsTo s t)"

text \<open>
  \<open>letterOfPrefix a b\<close>: \<open>a\<close> is a single letter, and \<open>b\<close> begins with the same letter,
  in either case, followed by a separator (the letter prefix of \<open>b\<close>, such as \<open>A.\<close>).
\<close>

definition sameLetter :: "jschar \<Rightarrow> jschar \<Rightarrow> bool" where
  "sameLetter l l' \<longleftrightarrow> l = l' \<or> l = l' + 32 \<or> l' = l + 32"

definition letterOfPrefix :: "jsstring \<Rightarrow> jsstring \<Rightarrow> bool" where
  "letterOfPrefix a b \<longleftrightarrow>
     (\<exists>l l' sep rest. a = [l] \<and> b = l' # sep # rest \<and> isLetter l \<and> isLetter l' \<and>
        isSeparator sep \<and> sameLetter l l')"

text \<open>
  The matcher as the amended specification words it: neither string is empty and, after
  trimming, the two are equal ignoring case, or one is a single letter equal (ignoring
  case) to the letter prefix of the other, or what is left of each after stripping its
  letter/number prefix is not empty and the two remainders are equal ignoring case.
\<close>

definition isMatch_amended :: "(jsstring \<Rightarrow> jsstring) \<Rightarrow> jsstring \<Rightarrow> jsstring \<Rightarrow> bool" where
  "isMatch_amended lc option answer \<longleftrightarrow>
     option \<noteq> [] \<and> answer \<noteq> [] \<and>
     (\<exists>o' c. trimsTo option o' \<and> trimsTo answer c \<and>
        (lc o' = lc c \<or> letterOfPrefix c o' \<or> letterOfPrefix o' c \<or>
         (\<exists>oContent cContent. stripsTo o' oContent \<and> stripsTo c cContent \<and>
            oContent \<noteq> [] \<and> cContent \<noteq> [] \<and> lc oContent = lc cContent)))"

text \<open>A question whose recorded answer matches its correct answer.\<close>

definition answeredCorrectly ::
    "(jsstring \<Rightarrow> jsstring) \<Rightarrow> (jsstring \<rightharpoonup> jsstring) \<Rightarrow> question \<Rightarrow> bool" where
  "answeredCorrectly lc ans q =
     (case ans (qid q) of None \<Rightarrow> False | Some a \<Rightarrow> isMatch lc a (correctAnswer q))"



text \<open>A reply that is a JSON object containing a \<open>questions\<close> array.\<close>

definition hasQuestionsArray :: "'r jsval \<Rightarrow> bool" where
  "hasQuestionsArray v =
     (case v of
        JObj kvs \<Rightarrow>
          (case map_of (rev kvs) (str ''questions'') of Some (JArr records) \<Rightarrow> True | _ \<Rightarrow> False)
      | _ \<Rightarrow> False)"

text \<open>
  The value stored under the storage key is the serialisation of the question list in
  memory.
\<close>

definition persisted :: "(question list \<Rightarrow> jsstring) \<Rightarrow> app \<Rightarrow> bool" where
  "persisted stringify s \<longleftrightarrow>
     localStorage s LOCAL_STORAGE_KEY = Some (stringify (questions s))"

text \<open>No question is both mastered and in the mistake book.\<close>

definition flagsExclusive :: "question list \<Rightarrow> bool" where
  "flagsExclusive qs =
     list_all (\<lambda>q. \<not> (mastered q = Some True \<and> inMistakeBook q = Some True)) qs"

definition flagsCleared :: "question list \<Rightarrow> bool" where
  "flagsCleared qs =
     list_all (\<lambda>q. mastered q = Some False \<and> inMistakeBook q = Some False) qs"

section \<open>The answer matcher, characterised\<close>

text \<open>
  The helpers of \<open>isMatch\<close> compute what the words of the specification describe: the
  regular expression of \<open>getPrefix\<close> finds a letter followed by a separator, \<open>trim\<close>
  removes the white space at both ends and nothing else, and \<open>getContent\<close> removes the
  letter/number prefix with its separators, if there is one, and trims.
\<close>

lemma getPrefix_Some_iff:
  "getPrefix s = Some p \<longleftrightarrow>
     (\<exists>l sep rest. s = l # sep # rest \<and> isLetter l \<and> isSeparator sep \<and> p = toUpperCase [l])"
  by (cases s rule: getPrefix.cases) auto

lemma isSingleLetter_iff: "isSingleLetter s \<longleftrightarrow> (\<exists>l. s = [l] \<and> isLetter l)"
  by (cases s rule: isSingleLetter.cases) auto

lemma takeWhile_dropWhile_unique:
  assumes "s = p @ q" "list_all P p" "q = [] \<or> \<not> P (hd q)"
  shows "takeWhile P s = p \<and> dropWhile P s = q"
proof (cases q)
  case Nil
  with assms show ?thesis by (simp add: list_all_iff)
next
  case (Cons x xs)
  with assms have "\<not> P x" by simp
  with assms(1,2) Cons show ?thesis
    by (simp add: list_all_iff takeWhile_append2 dropWhile_append2)
qed

lemma takeWhile_dropWhile_split:
  "s = takeWhile P s @ dropWhile P s \<and> list_all P (takeWhile P s) \<and>
   (dropWhile P s = [] \<or> \<not> P (hd (dropWhile P s)))"
  using hd_dropWhile [of P s] by (auto simp: list_all_iff dest: set_takeWhileD)

lemma trimsTo_iff: "trimsTo s t \<longleftrightarrow> t = trim s"
proof
  assume "trimsTo s t"
  then obtain l r where d: "s = l @ t @ r" "list_all isWhiteSpace l" "list_all isWhiteSpace r"
    "t = [] \<or> \<not> isWhiteSpace (hd t) \<and> \<not> isWhiteSpace (last t)"
    unfolding trimsTo_def by blast
  show "t = trim s"
  proof (cases "t = []")
    case True
    with d have "list_all isWhiteSpace s" by simp
    then have "dropWhile isWhiteSpace s = []" by (simp add: list_all_iff dropWhile_eq_Nil_conv)
    with True show ?thesis by (auto simp: trim_def dest: set_dropWhileD)
  next
    case False
    with d(4) have h: "\<not> isWhiteSpace (hd t)" "\<not> isWhiteSpace (last t)" by simp_all
    from False h(1) have "t @ r = [] \<or> \<not> isWhiteSpace (hd (t @ r))" by simp
    with d(1,2) have 1: "dropWhile isWhiteSpace s = t @ r"
      using takeWhile_dropWhile_unique [of s l "t @ r" isWhiteSpace] by simp
    have "rev (t @ r) = rev r @ rev t" by simp
    moreover have "list_all isWhiteSpace (rev r)" using d(3) by (simp add: list_all_iff)
    moreover have "rev t = [] \<or> \<not> isWhiteSpace (hd (rev t))"
      using False h(2) by (simp add: hd_rev)
    ultimately have "dropWhile isWhiteSpace (rev (t @ r)) = rev t"
      using takeWhile_dropWhile_unique [of "rev (t @ r)" "rev r" "rev t" isWhiteSpace] by simp
    with 1 show ?thesis by (simp add: trim_def)
  qed
next
  assume t: "t = trim s"
  define d where "d = dropWhile isWhiteSpace s"
  define l where "l = takeWhile isWhiteSpace s"
  define r where "r = rev (takeWhile isWhiteSpace (rev d))"
  have tt: "t = rev (dropWhile isWhiteSpace (rev d))" by (simp add: t trim_def d_def)
  have "d = rev (takeWhile isWhiteSpace (rev d) @ dropWhile isWhiteSpace (rev d))"
    by (simp only: takeWhile_dropWhile_id rev_rev_ident)
  also have "\<dots> = t @ r" by (simp only: rev_append tt r_def)
  finally have dd: "d = t @ r" .
  have "s = l @ d" by (simp add: l_def d_def)
  with dd have s: "s = l @ t @ r" by simp
  have wl: "list_all isWhiteSpace l" by (auto simp: l_def list_all_iff dest: set_takeWhileD)
  have wr: "list_all isWhiteSpace r" by (auto simp: r_def list_all_iff dest: set_takeWhileD)
  have e: "\<not> isWhiteSpace (hd t) \<and> \<not> isWhiteSpace (last t)" if ne: "t \<noteq> []"
  proof
    from ne dd have "d \<noteq> []" by simp
    then have "\<not> isWhiteSpace (hd d)" unfolding d_def by (rule hd_dropWhile)
    with ne dd show "\<not> isWhiteSpace (hd t)" by simp
    from ne tt have n: "dropWhile isWhiteSpace (rev d) \<noteq> []" by simp
    then have "\<not> isWhiteSpace (hd (dropWhile isWhiteSpace (rev d)))" by (rule hd_dropWhile)
    with n tt show "\<not> isWhiteSpace (last t)" by (simp add: last_rev)
  qed
  show "trimsTo s t" unfolding trimsTo_def using s wl wr e by blast
qed


lemma separator_not_alnum: "isSeparator u \<Longrightarrow> \<not> isAlnum u"
  by (auto simp: isSeparator_def isAlnum_def isLetter_def isWhiteSpace_def)

lemma hasLabel_iff:
  "hasLabel s \<longleftrightarrow>
     takeWhile isAlnum s \<noteq> [] \<and> takeWhile isSeparator (dropWhile isAlnum s) \<noteq> []"
proof
  assume "hasLabel s"
  then obtain p sep rest where d: "s = p @ sep # rest" "p \<noteq> []" "list_all isAlnum p"
    "isSeparator sep"
    unfolding hasLabel_def by blast
  from d(4) have "sep # rest = [] \<or> \<not> isAlnum (hd (sep # rest))"
    by (simp add: separator_not_alnum)
  with d(1,3) have "takeWhile isAlnum s = p \<and> dropWhile isAlnum s = sep # rest"
    by (rule takeWhile_dropWhile_unique)
  with d(2,4) show "takeWhile isAlnum s \<noteq> [] \<and> takeWhile isSeparator (dropWhile isAlnum s) \<noteq> []"
    by simp
next
  assume a: "takeWhile isAlnum s \<noteq> [] \<and> takeWhile isSeparator (dropWhile isAlnum s) \<noteq> []"
  then obtain sep rest where r: "dropWhile isAlnum s = sep # rest" "isSeparator sep"
    by (cases "dropWhile isAlnum s") (auto split: if_splits)
  have "s = takeWhile isAlnum s @ dropWhile isAlnum s" by simp
  with r have "s = takeWhile isAlnum s @ sep # rest" by simp
  moreover have "list_all isAlnum (takeWhile isAlnum s)"
    by (auto simp: list_all_iff dest: set_takeWhileD)
  ultimately show "hasLabel s" unfolding hasLabel_def using a r(2) by blast
qed

lemma stripsTo_iff: "stripsTo s t \<longleftrightarrow> t = getContent s"
proof (cases "hasLabel s")
  case False
  then have "\<not> (\<exists>p seps rest. s = p @ seps @ rest \<and> p \<noteq> [] \<and> list_all isAlnum p \<and>
         seps \<noteq> [] \<and> list_all isSeparator seps \<and> (rest = [] \<or> \<not> isSeparator (hd rest)) \<and>
         trimsTo rest t)"
  proof -
    have "hasLabel s" if "s = p @ seps @ rest" "p \<noteq> []" "list_all isAlnum p" "seps \<noteq> []"
      "list_all isSeparator seps" for p seps rest
    proof -
      from that(4) obtain sep seps' where "seps = sep # seps'" by (cases seps) auto
      with that show ?thesis unfolding hasLabel_def by auto
    qed
    with False show ?thesis by blast
  qed
  moreover from False have "getContent s = trim s"
    by (auto simp: hasLabel_iff getContent_def Let_def)
  ultimately show ?thesis using False by (auto simp: stripsTo_def trimsTo_iff)
next
  case True
  define p0 where "p0 = takeWhile isAlnum s"
  define r0 where "r0 = dropWhile isAlnum s"
  define seps0 where "seps0 = takeWhile isSeparator r0"
  define rest0 where "rest0 = dropWhile isSeparator r0"
  from True have ne: "p0 \<noteq> []" "seps0 \<noteq> []"
    by (simp_all add: hasLabel_iff p0_def seps0_def r0_def)
  have gc: "getContent s = trim rest0"
    using ne by (simp add: getContent_def Let_def p0_def seps0_def r0_def rest0_def)
  have uniq: "rest = rest0" if "s = p @ seps @ rest" "p \<noteq> []" "list_all isAlnum p" "seps \<noteq> []"
      "list_all isSeparator seps" "rest = [] \<or> \<not> isSeparator (hd rest)" for p seps rest
  proof -
    from that(4,5) have "\<not> isAlnum (hd (seps @ rest))"
      by (cases seps) (simp_all add: separator_not_alnum)
    then have "seps @ rest = [] \<or> \<not> isAlnum (hd (seps @ rest))" by simp
    with that(1,3) have "takeWhile isAlnum s = p \<and> dropWhile isAlnum s = seps @ rest"
      by (rule takeWhile_dropWhile_unique)
    then have "r0 = seps @ rest" by (simp add: r0_def)
    from this that(5,6) have "takeWhile isSeparator r0 = seps \<and> dropWhile isSeparator r0 = rest"
      by (rule takeWhile_dropWhile_unique)
    then show ?thesis by (simp add: rest0_def)
  qed
  have ex: "s = p0 @ seps0 @ rest0 \<and> list_all isAlnum p0 \<and> list_all isSeparator seps0 \<and>
      (rest0 = [] \<or> \<not> isSeparator (hd rest0))"
    using hd_dropWhile [of isSeparator r0]
    by (auto simp: p0_def r0_def seps0_def rest0_def list_all_iff dest: set_takeWhileD)
  show ?thesis
  proof
    assume "stripsTo s t"
    with True obtain p seps rest where "s = p @ seps @ rest" "p \<noteq> []" "list_all isAlnum p"
      "seps \<noteq> []" "list_all isSeparator seps" "rest = [] \<or> \<not> isSeparator (hd rest)"
      "trimsTo rest t"
      unfolding stripsTo_def by blast
    with uniq [of p seps rest] have "trimsTo rest0 t" by simp
    with gc show "t = getContent s" by (simp add: trimsTo_iff)
  next
    assume "t = getContent s"
    with gc have "trimsTo rest0 t" by (simp add: trimsTo_iff)
    with ex ne show "stripsTo s t" unfolding stripsTo_def by blast
  qed
qed

lemma toUpperCase_letter:
  "isLetter l \<Longrightarrow> isLetter l' \<Longrightarrow> toUpperCase [l] = toUpperCase [l'] \<longleftrightarrow> sameLetter l l'"
  by (auto simp: isLetter_def toUpperCase_def sameLetter_def)

lemma letterOfPrefix_iff:
  "letterOfPrefix a b \<longleftrightarrow> isSingleLetter a \<and> getPrefix b = Some (toUpperCase a)"
proof
  assume "letterOfPrefix a b"
  then obtain l l' sep rest where "a = [l]" "b = l' # sep # rest" "isLetter l" "isLetter l'"
    "isSeparator sep" "sameLetter l l'"
    unfolding letterOfPrefix_def by blast
  then show "isSingleLetter a \<and> getPrefix b = Some (toUpperCase a)"
    using toUpperCase_letter [of l l'] by simp
next
  assume a: "isSingleLetter a \<and> getPrefix b = Some (toUpperCase a)"
  then obtain l where l: "a = [l]" "isLetter l" by (auto simp: isSingleLetter_iff)
  from a obtain l' sep rest where b: "b = l' # sep # rest" "isLetter l'" "isSeparator sep"
    "toUpperCase a = toUpperCase [l']"
    by (auto simp: getPrefix_Some_iff)
  with l have "sameLetter l l'" using toUpperCase_letter [of l l'] by simp
  with l b show "letterOfPrefix a b" unfolding letterOfPrefix_def by blast
qed

lemma isMatch_empty: "isMatch lc [] c = False" "isMatch lc o' [] = False"
  by (simp_all add: isMatch_def)

text \<open>
  C1 (counterexample). The specification's wording makes two bare option labels match:
  \<open>"A."\<close> and \<open>"B."\<close> have the same (empty) content once their prefixes are stripped.
  The source compares contents only when both are non-empty, and answers false.
\<close>

theorem isMatch_spec_counterexample:
  "isMatch toLowerCase_ascii (str ''A.'') (str ''B.'') \<noteq>
   isMatch_spec toLowerCase_ascii (str ''A.'') (str ''B.'')"
  by code_simp

text \<open>
  C1 (amended). For every option string and correct-answer string, and whatever case
  mapping the host applies, \<open>isMatch\<close> is true exactly when neither string is empty and,
  after trimming, the two are equal ignoring case, or one is a single letter equal
  (ignoring case) to the letter prefix of the other, or their contents after stripping
  the letter/number prefixes are both non-empty and equal ignoring case.
\<close>

theorem isMatch_characterisation:
  "isMatch lc option answer \<longleftrightarrow> isMatch_amended lc option answer"
  by (auto simp: isMatch_def isMatch_amended_def Let_def trimsTo_iff stripsTo_iff
      letterOfPrefix_iff)

theorem isMatch_characterisation_witness:
  "isMatch_amended toLowerCase_ascii (str ''A. Apple'') (str '' apple '') \<and>
   isMatch_amended toLowerCase_ascii (str ''b'') (str ''B. Pear'') \<and>
   \<not> isMatch_amended toLowerCase_ascii (str ''A.'') (str ''B.'') \<and>
   \<not> isMatch_amended toLowerCase_ascii (str ''Apple'') (str ''A'')"
  unfolding isMatch_characterisation [symmetric] by code_simp

section \<open>Rounding to binary64\<close>


lemma ilog2_upper: "0 < x \<Longrightarrow> x < 2 powi (ilog2 x + 1)"
proof (induction x rule: ilog2.induct)
  case (1 x)
  show ?case
  proof (cases "2 \<le> x")
    case True
    with 1 have "x / 2 < 2 powi (ilog2 (x / 2) + 1)" by simp
    moreover have "ilog2 x = ilog2 (x / 2) + 1" using True 1(3) by (subst ilog2.simps) simp
    ultimately show ?thesis by (simp add: power_int_add)
  next
    case False
    show ?thesis
    proof (cases "x < 1")
      case True
      with 1 False have "x * 2 < 2 powi (ilog2 (x * 2) + 1)" by simp
      moreover have "ilog2 x = ilog2 (x * 2) - 1" using True False 1(3) by (subst ilog2.simps) simp
      ultimately show ?thesis by (simp add: power_int_add)
    next
      case n1: False
      then have "ilog2 x = 0" using False 1(3) by (subst ilog2.simps) simp
      with False show ?thesis by simp
    qed
  qed
qed









section \<open>The handlers of the bank\<close>

lemma questions_saveQuestions: "questions (saveQuestions st qs s) = qs"
  by (simp add: saveQuestions_def)

lemma questions_handleImport:
  "questions (handleImport st newQs s) = questions s @ newQs"
  by (simp add: questions_saveQuestions handleImport_def)

lemma questions_handleMasterQuestion:
  "questions (handleMasterQuestion st i s) =
     map (\<lambda>q. if qid q = i then q\<lparr>mastered := Some True, inMistakeBook := Some False\<rparr> else q)
       (questions s)"
  by (simp add: questions_saveQuestions handleMasterQuestion_def)

lemma questions_handleMistake:
  "questions (handleMistake st i s) =
     map (\<lambda>q. if qid q = i then q\<lparr>inMistakeBook := Some True, mastered := Some False\<rparr> else q)
       (questions s)"
  by (simp add: questions_saveQuestions handleMistake_def)

lemma questions_handleExamComplete:
  "questions (handleExamComplete st wrong s) =
     map (\<lambda>q. if qid q \<in> set wrong
               then q\<lparr>inMistakeBook := Some True, mastered := Some False\<rparr> else q)
       (questions s)"
  by (cases wrong) (simp_all add: questions_saveQuestions handleExamComplete_def map_idI)

lemma sample_bank:
  "questions sampleApp =
     [(sampleQuestion ''q1'' ''A'')\<lparr>inMistakeBook := Some True\<rparr>,
      (sampleQuestion ''q2'' ''B. Pear'')\<lparr>mastered := Some True\<rparr>,
      sampleQuestion ''q3'' ''Pear'']"
  by (simp add: sampleApp_def)

lemma sample_ids:
  "qid (sampleQuestion i a) = str i"
  by (simp add: sampleQuestion_def)

lemma str_eq_iff: "str a = str b \<longleftrightarrow> a = b"
  by (simp add: str_def inj_of_char)

subsection \<open>Marking a question mastered or mistaken\<close>

text \<open>
  C5 (counterexample). The two flags are not independent: marking \<open>q1\<close>, which is in the
  mistake book, as mastered clears its \<open>inMistakeBook\<close> flag, and marking the mastered
  \<open>q2\<close> as a mistake clears its \<open>mastered\<close> flag.
\<close>

theorem flags_independent_counterexample:
  "map inMistakeBook (questions (handleMasterQuestion stringifyIds (str ''q1'') sampleApp))
     \<noteq> map inMistakeBook (questions sampleApp) \<and>
   map mastered (questions (handleMistake stringifyIds (str ''q2'') sampleApp))
     \<noteq> map mastered (questions sampleApp)"
  by (simp add: sample_ids str_eq_iff questions_handleMasterQuestion questions_handleMistake sample_bank)

text \<open>
  C5 (amended). The handlers set the two flags together: marking a question mastered sets
  \<open>mastered\<close> to true and \<open>inMistakeBook\<close> to false, marking it as a mistake sets
  \<open>inMistakeBook\<close> to true and \<open>mastered\<close> to false; the other fields of the question, and
  the questions with another identifier, are unchanged.
\<close>

theorem flags_set_together:
  assumes "k < length (questions s)"
  shows "length (questions (handleMasterQuestion st i s)) = length (questions s) \<and>
   length (questions (handleMistake st i s)) = length (questions s) \<and>
   questions (handleMasterQuestion st i s) ! k =
     (if qid (questions s ! k) = i
      then (questions s ! k)\<lparr>mastered := Some True, inMistakeBook := Some False\<rparr>
      else questions s ! k) \<and>
   questions (handleMistake st i s) ! k =
     (if qid (questions s ! k) = i
      then (questions s ! k)\<lparr>inMistakeBook := Some True, mastered := Some False\<rparr>
      else questions s ! k)"
  using assms by (simp add: questions_handleMasterQuestion questions_handleMistake)

theorem flags_set_together_witness:
  "0 < length (questions sampleApp) \<and>
   questions (handleMasterQuestion stringifyIds (str ''q1'') sampleApp) ! 0 =
     (sampleQuestion ''q1'' ''A'')\<lparr>inMistakeBook := Some False, mastered := Some True\<rparr> \<and>
   questions (handleMistake stringifyIds (str ''q1'') sampleApp) ! 0 =
     (sampleQuestion ''q1'' ''A'')\<lparr>inMistakeBook := Some True, mastered := Some False\<rparr>"
proof -
  have h: "0 < length (questions sampleApp)" by (simp add: sample_bank)
  show ?thesis
    using h flags_set_together [OF h, of stringifyIds "str ''q1''"]
    by (simp add: sample_ids str_eq_iff sample_bank)
qed


subsection \<open>Grading an exam\<close>

text \<open>
  When the grading loop returns, it has counted the questions whose recorded answer
  matches and collected the identifiers of the others, in the order of the exam.
\<close>

lemma gradeAnswer_Inr:
  "gradeAnswer lc ans q = Inr b \<Longrightarrow> b = answeredCorrectly lc ans q"
  by (auto simp: gradeAnswer_def getProperty_def answeredCorrectly_def isMatch_empty
      split: option.splits if_splits)

lemma gradeLoop_Inr:
  "gradeLoop lc ans qs c w = Inr (c', w') \<Longrightarrow>
     c' = c + length (filter (answeredCorrectly lc ans) qs) \<and>
     w' = w @ map qid (filter (\<lambda>q. \<not> answeredCorrectly lc ans q) qs)"
proof (induction qs arbitrary: c w)
  case Nil
  then show ?case by simp
next
  case (Cons q qs)
  show ?case
  proof (cases "gradeAnswer lc ans q")
    case (Inl e)
    with Cons.prems show ?thesis by simp
  next
    case (Inr b)
    then have b: "b = answeredCorrectly lc ans q" by (rule gradeAnswer_Inr)
    show ?thesis
    proof (cases b)
      case True
      with Inr Cons.prems have "gradeLoop lc ans qs (c + 1) w = Inr (c', w')" by simp
      from Cons.IH [OF this] b True show ?thesis by simp
    next
      case False
      with Inr Cons.prems have "gradeLoop lc ans qs c (w @ [qid q]) = Inr (c', w')" by simp
      from Cons.IH [OF this] b False show ?thesis by simp
    qed
  qed
qed

lemma gradeAll_Inr:
  assumes "gradeAll lc ans qs = Inr (c, w)"
  shows "c = length (filter (answeredCorrectly lc ans) qs)"
    and "w = map qid (filter (\<lambda>q. \<not> answeredCorrectly lc ans q) qs)"
  using gradeLoop_Inr [of lc ans qs 0 "[]" c w] assms by (simp_all add: gradeAll_def)

lemma handleSubmit_Inr:
  assumes "handleSubmit lc qs r = Inr (r', wrong)"
  shows "gradeAll lc (answers r) qs =
           Inr (length (filter (answeredCorrectly lc (answers r)) qs), wrong)"
    and "wrong = map qid (filter (\<lambda>q. \<not> answeredCorrectly lc (answers r) q) qs)"
    and "r' = r\<lparr>score := percentage (length (filter (answeredCorrectly lc (answers r)) qs))
                            (length qs),
                 wrongIds := wrong, isSubmitted := True, currentIndex := 0\<rparr>"
proof -
  from assms obtain c where g: "gradeAll lc (answers r) qs = Inr (c, wrong)"
    and r': "r' = r\<lparr>score := percentage c (length qs), wrongIds := wrong, isSubmitted := True,
                     currentIndex := 0\<rparr>"
    by (auto simp: handleSubmit_def split: sum.splits prod.splits)
  note e = gradeAll_Inr [OF g]
  from g e(1) show "gradeAll lc (answers r) qs =
           Inr (length (filter (answeredCorrectly lc (answers r)) qs), wrong)" by simp
  from e(2) show "wrong = map qid (filter (\<lambda>q. \<not> answeredCorrectly lc (answers r) q) qs)" .
  from r' e(1) show "r' = r\<lparr>score := percentage (length (filter (answeredCorrectly lc (answers r)) qs))
                            (length qs),
                 wrongIds := wrong, isSubmitted := True, currentIndex := 0\<rparr>" by simp
qed

lemma submitExam_Inr:
  "handleSubmit lc (examQuestions s) r = Inr (r', wrong) \<Longrightarrow>
     submitExam st lc s r = (handleExamComplete st wrong s, r')"
  by (simp add: submitExam_def)

lemma submitExam_cases:
  "fst (submitExam st lc s r) = s \<or>
   (\<exists>wrong. fst (submitExam st lc s r) = handleExamComplete st wrong s)"
  by (auto simp: submitExam_def split: sum.splits prod.splits)

text \<open>
  The loop returns when no identifier of the exam is the name of a member of
  \<open>Object.prototype\<close>; more generally, when every question with such an identifier has a
  recorded answer or an empty correct answer.
\<close>

lemma gradeAnswer_completes:
  "ans (qid q) \<noteq> None \<or> qid q \<notin> set objectPrototype \<or> correctAnswer q = [] \<Longrightarrow>
     \<exists>b. gradeAnswer lc ans q = Inr b"
  by (auto simp: gradeAnswer_def getProperty_def split: option.splits)

lemma gradeLoop_completes:
  "list_all (\<lambda>q. ans (qid q) \<noteq> None \<or> qid q \<notin> set objectPrototype \<or> correctAnswer q = []) qs \<Longrightarrow>
     \<exists>res. gradeLoop lc ans qs c w = Inr res"
proof (induction qs arbitrary: c w)
  case Nil
  show ?case by simp
next
  case (Cons q qs)
  then obtain b where b: "gradeAnswer lc ans q = Inr b"
    using gradeAnswer_completes [of ans q lc] by auto
  from Cons have "\<exists>res. gradeLoop lc ans qs (c + 1) w = Inr res"
    "\<exists>res. gradeLoop lc ans qs c (w @ [qid q]) = Inr res" by simp_all
  with b show ?case by simp
qed

lemma handleSubmit_completes:
  assumes "list_all (\<lambda>q. answers r (qid q) \<noteq> None \<or> qid q \<notin> set objectPrototype \<or>
                         correctAnswer q = []) qs"
  shows "\<exists>r' wrong. handleSubmit lc qs r = Inr (r', wrong)"
proof -
  from gradeLoop_completes [OF assms, of lc 0 "[]"]
  obtain c w where "gradeAll lc (answers r) qs = Inr (c, w)" by (auto simp: gradeAll_def)
  then show ?thesis by (simp add: handleSubmit_def)
qed

lemma length_filter_partition:
  "length (filter P xs) + length (filter (\<lambda>x. \<not> P x) xs) = length xs"
  by (induction xs) simp_all

text \<open>
  C3. After an exam completes (\<open>handleSubmit\<close> returns, with the list \<open>wrong\<close> of missed
  items), every question of the bank whose identifier is in the list of missed items has
  \<open>inMistakeBook\<close> true and \<open>mastered\<close> false, and every other question of the bank is
  unchanged; the missed items are the exam questions whose recorded answer does not match,
  and their number plus the number of correct answers that the loop counted is the number
  of exam questions.
\<close>

theorem submitExam_records_missed:
  assumes "k < length (questions s)"
    and "handleSubmit lc (examQuestions s) r = Inr (r', wrong)"
  shows "submitExam st lc s r = (handleExamComplete st wrong s, r') \<and>
     wrongIds r' = wrong \<and>
     wrong = map qid (filter (\<lambda>q. \<not> answeredCorrectly lc (answers r) q) (examQuestions s)) \<and>
     length (questions (fst (submitExam st lc s r))) = length (questions s) \<and>
     questions (fst (submitExam st lc s r)) ! k =
       (if qid (questions s ! k) \<in> set wrong
        then (questions s ! k)\<lparr>inMistakeBook := Some True, mastered := Some False\<rparr>
        else questions s ! k) \<and>
     (\<exists>correctCount. gradeAll lc (answers r) (examQuestions s) = Inr (correctCount, wrong) \<and>
        length wrong + correctCount = length (examQuestions s))"
proof -
  note h = handleSubmit_Inr [OF assms(2)]
  have e: "submitExam st lc s r = (handleExamComplete st wrong s, r')"
    using assms(2) by (rule submitExam_Inr)
  have w: "wrongIds r' = wrong" by (simp add: h(3))
  have l: "length (questions (fst (submitExam st lc s r))) = length (questions s)"
    by (simp add: e questions_handleExamComplete)
  have n: "questions (fst (submitExam st lc s r)) ! k =
       (if qid (questions s ! k) \<in> set wrong
        then (questions s ! k)\<lparr>inMistakeBook := Some True, mastered := Some False\<rparr>
        else questions s ! k)"
    using assms(1) by (simp add: e questions_handleExamComplete)
  have "length wrong + length (filter (answeredCorrectly lc (answers r)) (examQuestions s)) =
      length (examQuestions s)"
    unfolding h(2) length_map by (simp add: length_filter_partition add.commute)
  with h(1) have c: "\<exists>correctCount.
      gradeAll lc (answers r) (examQuestions s) = Inr (correctCount, wrong) \<and>
      length wrong + correctCount = length (examQuestions s)" by blast
  from e w h(2) l n c show ?thesis by blast
qed

lemma sample_graded:
  "gradeAll toLowerCase_ascii (answers sampleRunner) (examQuestions sampleApp) =
     Inr (1, [str ''q1'', str ''q2''])"
  by code_simp

lemma sample_percentage: "percentage 1 3 = Some 33"
  by code_simp

lemma sample_exam_length: "length (examQuestions sampleApp) = 3"
  by (simp add: sampleApp_def)

lemma sample_submitted:
  "handleSubmit toLowerCase_ascii (examQuestions sampleApp) sampleRunner =
     Inr (sampleRunner\<lparr>score := Some 33, wrongIds := [str ''q1'', str ''q2''],
                       isSubmitted := True, currentIndex := 0\<rparr>,
          [str ''q1'', str ''q2''])"
  using sample_percentage by (simp add: handleSubmit_def sample_graded sample_exam_length)

theorem submitExam_records_missed_witness:
  "1 < length (questions sampleApp) \<and>
   handleSubmit toLowerCase_ascii (examQuestions sampleApp) sampleRunner =
     Inr (sampleRunner\<lparr>score := Some 33, wrongIds := [str ''q1'', str ''q2''],
                       isSubmitted := True, currentIndex := 0\<rparr>,
          [str ''q1'', str ''q2'']) \<and>
   questions (fst (submitExam stringifyIds toLowerCase_ascii sampleApp sampleRunner)) ! 1 =
     (sampleQuestion ''q2'' ''B. Pear'')\<lparr>mastered := Some False, inMistakeBook := Some True\<rparr> \<and>
   gradeAll toLowerCase_ascii (answers sampleRunner) (examQuestions sampleApp) =
     Inr (1, [str ''q1'', str ''q2''])"
proof -
  have h: "1 < length (questions sampleApp)" by (simp add: sample_bank)
  note t = submitExam_records_missed [OF h sample_submitted, where st = stringifyIds]
  note n = t [THEN conjunct2, THEN conjunct2, THEN conjunct2, THEN conjunct2, THEN conjunct1]
  have "questions (fst (submitExam stringifyIds toLowerCase_ascii sampleApp sampleRunner)) ! 1 =
     (sampleQuestion ''q2'' ''B. Pear'')\<lparr>mastered := Some False, inMistakeBook := Some True\<rparr>"
    unfolding n by (simp add: sample_ids str_eq_iff sample_bank)
  with h sample_submitted sample_graded show ?thesis by blast
qed

text \<open>
  An exam question for which no answer was recorded, or only the empty string, is graded
  wrong whenever the grading pass returns: its identifier is in the list of missed items,
  and every question of the bank with that identifier ends up in the mistake book.
\<close>

lemma unanswered_missed_on_completion:
  assumes "q \<in> set (examQuestions s)"
    and "answers r (qid q) = None \<or> answers r (qid q) = Some []"
    and "handleSubmit lc (examQuestions s) r = Inr (r', wrong)"
  shows "qid q \<in> set wrong"
    and "list_all (\<lambda>b. qid b = qid q \<longrightarrow> inMistakeBook b = Some True \<and> mastered b = Some False)
       (questions (fst (submitExam st lc s r)))"
proof -
  from assms(2) have na: "\<not> answeredCorrectly lc (answers r) q"
    by (auto simp: answeredCorrectly_def isMatch_empty)
  with assms(1) show w: "qid q \<in> set wrong"
    unfolding handleSubmit_Inr(2) [OF assms(3)] by simp
  show "list_all (\<lambda>b. qid b = qid q \<longrightarrow> inMistakeBook b = Some True \<and> mastered b = Some False)
       (questions (fst (submitExam st lc s r)))"
    unfolding submitExam_Inr [OF assms(3)] fst_conv questions_handleExamComplete list.pred_map
    using w by (auto simp: list_all_iff)
qed

lemma proto_graded:
  "gradeAll toLowerCase_ascii (answers initialRunner) (examQuestions protoApp) = Inl TypeError"
  by code_simp

text \<open>
  C9 (failing input). An exam on a question whose identifier is \<open>constructor\<close>, submitted
  with no answer recorded: \<open>answers[q.id]\<close> is the function \<open>Object.prototype.constructor\<close>,
  the grading pass throws a TypeError at \<open>option.trim()\<close>, and the application and the
  runner are left as they were: no score, no list of missed items, and the question is
  not put in the mistake book.
\<close>

theorem unanswered_prototype_id_throws:
  "examQuestions protoApp = [sampleQuestion ''constructor'' ''A''] \<and>
   answers initialRunner (qid (sampleQuestion ''constructor'' ''A'')) = None \<and>
   handleSubmit toLowerCase_ascii (examQuestions protoApp) initialRunner = Inl TypeError \<and>
   submitExam stringifyIds toLowerCase_ascii protoApp initialRunner = (protoApp, initialRunner) \<and>
   isSubmitted (snd (submitExam stringifyIds toLowerCase_ascii protoApp initialRunner)) = False \<and>
   map inMistakeBook
     (questions (fst (submitExam stringifyIds toLowerCase_ascii protoApp initialRunner))) = [None]"
proof -
  have h: "handleSubmit toLowerCase_ascii (examQuestions protoApp) initialRunner = Inl TypeError"
    by (simp add: handleSubmit_def proto_graded)
  then have s: "submitExam stringifyIds toLowerCase_ascii protoApp initialRunner =
      (protoApp, initialRunner)"
    by (simp add: submitExam_def)
  have "examQuestions protoApp = [sampleQuestion ''constructor'' ''A'']"
    "answers initialRunner (qid (sampleQuestion ''constructor'' ''A'')) = None"
    "isSubmitted initialRunner = False" "map inMistakeBook (questions protoApp) = [None]"
    by (simp_all add: protoApp_def initialRunner_def sampleQuestion_def)
  with h s show ?thesis by simp
qed


subsection \<open>Starting a mock exam\<close>

lemma mset_take_subseteq: "mset (take n xs) \<subseteq># mset xs"
proof -
  have "mset xs = mset (take n xs) + mset (drop n xs)"
    by (metis append_take_drop_id mset_append)
  then show ?thesis by simp
qed

lemma distinct_of_mset_eq: "mset xs = mset ys \<Longrightarrow> distinct ys \<Longrightarrow> distinct xs"
  by (metis mset_eq_imp_distinct_iff)

text \<open>
  C4. For a non-empty bank, and a sort that rearranges the copy of the bank it is given,
  starting a mock exam selects exactly \<open>min 30 (bank size)\<close> questions, each of them an
  element of the bank, and none more often than the bank holds it: no entry of the bank
  is selected twice, and the selected identifiers are distinct when the bank's are.
\<close>

theorem startMockExam_sample:
  assumes "questions s \<noteq> []"
    and "mset (sortRandomly (questions s)) = mset (questions s)"
  shows "length (examQuestions (startMockExam sortRandomly s)) = min 30 (length (questions s)) \<and>
     set (examQuestions (startMockExam sortRandomly s)) \<subseteq> set (questions s) \<and>
     mset (examQuestions (startMockExam sortRandomly s)) \<subseteq># mset (questions s) \<and>
     (distinct (map qid (questions s)) \<longrightarrow>
        distinct (map qid (examQuestions (startMockExam sortRandomly s)))) \<and>
     mode (startMockExam sortRandomly s) = MockExam \<and>
     questions (startMockExam sortRandomly s) = questions s"
proof -
  let ?sel = "take (min 30 (length (questions s))) (sortRandomly (questions s))"
  have sel: "examQuestions (startMockExam sortRandomly s) = ?sel"
    "mode (startMockExam sortRandomly s) = MockExam"
    "questions (startMockExam sortRandomly s) = questions s"
    using assms(1) by (simp_all add: startMockExam_def Let_def)
  have len: "length (sortRandomly (questions s)) = length (questions s)"
    using assms(2) by (rule mset_eq_length)
  have sub: "mset ?sel \<subseteq># mset (questions s)"
    using mset_take_subseteq[of "min 30 (length (questions s))" "sortRandomly (questions s)"]
    by (simp only: assms(2))
  have "set ?sel \<subseteq> set (questions s)"
    using sub by (rule set_mset_mono[of "mset ?sel" "mset (questions s)", simplified])
  moreover have "distinct (map qid ?sel)" if d: "distinct (map qid (questions s))"
  proof -
    have "mset (map qid (sortRandomly (questions s))) = mset (map qid (questions s))"
      using assms(2) by simp
    then have "distinct (map qid (sortRandomly (questions s)))"
      using d by (rule distinct_of_mset_eq)
    then show ?thesis by (metis distinct_take take_map)
  qed
  ultimately show ?thesis using sel len sub by simp
qed

theorem startMockExam_sample_witness:
  "questions sampleApp \<noteq> [] \<and>
   mset (rev (questions sampleApp)) = mset (questions sampleApp) \<and>
   distinct (map qid (questions sampleApp)) \<and>
   length (examQuestions (startMockExam rev sampleApp)) = 3 \<and>
   distinct (map qid (examQuestions (startMockExam rev sampleApp))) \<and>
   length (questions largeApp) = 40 \<and>
   length (examQuestions (startMockExam rev largeApp)) = 30"
proof -
  have g1: "questions largeApp \<noteq> []" by (simp add: largeApp_def)
  have g2: "mset (rev (questions largeApp)) = mset (questions largeApp)" by simp
  have g3: "length (questions largeApp) = 40" by (simp add: largeApp_def)
  have h1: "questions sampleApp \<noteq> []" by (simp add: sample_bank)
  have h2: "mset (rev (questions sampleApp)) = mset (questions sampleApp)" by simp
  have h3: "distinct (map qid (questions sampleApp))" by (simp add: sample_ids str_eq_iff sample_bank)
  show ?thesis
    using h1 h2 h3 g3 startMockExam_sample [where s = sampleApp and sortRandomly = rev, OF h1 h2]
      startMockExam_sample [where s = largeApp and sortRandomly = rev, OF g1 g2]
    by (simp add: sample_ids str_eq_iff sample_bank)
qed


subsection \<open>The score\<close>







text \<open>
  Where the exact percentage lies half-way between two integers, either is nearest, and
  the binary rounding of the quotient decides which one is reported.
\<close>

lemma percentage_tie_down: "percentage 29 200 = Some 14"
  by code_simp

lemma percentage_tie_up: "percentage 1 8 = Some 13"
  by code_simp




section \<open>The importer\<close>

subsection \<open>Importing a JSON payload\<close>

lemma length_validQuestions:
  "length (validQuestions u k records) = length records"
  by (induction records arbitrary: k) (simp_all split: option.splits)

text \<open>Each imported question is built from the record at its index, under the record's own
  identifier when it has a non-empty one and under a drawn one otherwise.\<close>

lemma validQuestions_nth:
  "n < length records \<Longrightarrow>
   \<exists>i. validQuestions u k records ! n = jsonQuestion i (records ! n) \<and>
       (case j_id (records ! n) of
          None \<Rightarrow> i \<in> range u
        | Some x \<Rightarrow> if x \<noteq> [] then i = x else i \<in> range u)"
proof (induction records arbitrary: k n)
  case Nil
  then show ?case by simp
next
  case (Cons q qs)
  show ?case
  proof (cases n)
    case 0
    then show ?thesis by (auto split: option.splits)
  next
    case (Suc m)
    with Cons.prems have m: "m < length qs" by simp
    have "\<exists>k'. validQuestions u k (q # qs) ! n = validQuestions u k' qs ! m"
      using Suc by (auto split: option.splits)
    then obtain k' where "validQuestions u k (q # qs) ! n = validQuestions u k' qs ! m" ..
    with Cons.IH [OF m, of k'] show ?thesis using Suc by simp
  qed
qed

text \<open>
  C6. For a payload that parses to an array of \<open>N\<close> question records (and identifiers
  drawn by \<open>crypto.randomUUID\<close>, which are not empty), the JSON import raises no error and
  leaves a bank of \<open>N\<close> more questions: the old bank, unchanged, followed by one question
  for each record, in order, with \<open>mastered\<close> and \<open>inMistakeBook\<close> false, a non-empty
  identifier (the record's own when it has one), the record's type or \<open>open-ended\<close> when
  the type is absent, and the record's other fields.
\<close>

theorem json_import_appends:
  assumes "parse (inputText imp) = IsArray records"
    and "\<And>k. randomUUID k \<noteq> []"
    and "n < length records"
  shows "case handleJsonImport st parse randomUUID imp s of (imp', s') \<Rightarrow>
     error imp' = None \<and>
     length (questions s') = length (questions s) + length records \<and>
     take (length (questions s)) (questions s') = questions s \<and>
     (let q = questions s' ! (length (questions s) + n); rec = records ! n in
        mastered q = Some False \<and> inMistakeBook q = Some False \<and> qid q \<noteq> [] \<and>
        qtype q = (case j_type rec of None \<Rightarrow> OpenEnded
                   | Some t \<Rightarrow> if t \<noteq> [] then t else OpenEnded) \<and>
        (case j_id rec of None \<Rightarrow> True | Some x \<Rightarrow> x = [] \<or> qid q = x) \<and>
        qtext q = j_text rec \<and> options q = j_options rec \<and>
        correctAnswer q = j_correctAnswer rec \<and> explanation q = j_explanation rec \<and>
        tags q = j_tags rec)"
proof -
  obtain i where i: "validQuestions randomUUID 0 records ! n = jsonQuestion i (records ! n)"
    "case j_id (records ! n) of None \<Rightarrow> i \<in> range randomUUID
     | Some x \<Rightarrow> if x \<noteq> [] then i = x else i \<in> range randomUUID"
    using validQuestions_nth [OF assms(3)] by blast
  have ne: "i \<noteq> []" using i(2) assms(2) by (auto split: option.splits if_splits)
  have own: "case j_id (records ! n) of None \<Rightarrow> True | Some x \<Rightarrow> x = [] \<or> i = x"
    using i(2) by (auto split: option.splits if_splits)
  have r: "handleJsonImport st parse randomUUID imp s =
      (imp\<lparr>error := None\<rparr>, handleImport st (validQuestions randomUUID 0 records) s)"
    using assms(1) by (simp add: handleJsonImport_def)
  have q: "questions (handleImport st (validQuestions randomUUID 0 records) s) !
      (length (questions s) + n) = jsonQuestion i (records ! n)"
    using i(1) by (simp add: questions_handleImport nth_append)
  show ?thesis
    unfolding r using ne own
    by (auto simp: questions_handleImport length_validQuestions i(1) jsonQuestion_def Let_def split: option.splits)
qed


lemma sampleUUID_nonempty: "sampleUUID k \<noteq> []"
  by (simp add: sampleUUID_def)

theorem json_import_appends_witness:
  "(case handleJsonImport stringifyIds (\<lambda>t. IsArray sampleRecords) sampleUUID sampleImporter sampleApp
    of (imp', s') \<Rightarrow>
      length (questions s') = 6 \<and>
      map qid (drop 3 (questions s')) = [str ''n1'', str ''uuid-0'', str ''uuid-1''] \<and>
      map qtype (drop 3 (questions s')) = [TrueFalse, OpenEnded, OpenEnded] \<and>
      map mastered (drop 3 (questions s')) = [Some False, Some False, Some False] \<and>
      mastered (questions s' ! (length (questions sampleApp) + 1)) = Some False \<and>
      inMistakeBook (questions s' ! (length (questions sampleApp) + 1)) = Some False \<and>
      qtype (questions s' ! (length (questions sampleApp) + 1)) = OpenEnded)"
proof -
  have h1: "(\<lambda>t. IsArray sampleRecords) (inputText sampleImporter) = IsArray sampleRecords"
    by simp
  have h3: "1 < length sampleRecords" by (simp add: sampleRecords_def)
  have e: "map qid (validQuestions sampleUUID 0 sampleRecords) = [str ''n1'', str ''uuid-0'', str ''uuid-1'']"
    "map qtype (validQuestions sampleUUID 0 sampleRecords) = [TrueFalse, OpenEnded, OpenEnded]"
    "map mastered (validQuestions sampleUUID 0 sampleRecords) = [Some False, Some False, Some False]"
    by (simp_all add: sampleRecords_def sampleRecord_def jsonQuestion_def sampleUUID_def str_def
        TrueFalse_def)
  show ?thesis
    using json_import_appends [where parse = "\<lambda>t. IsArray sampleRecords" and imp = sampleImporter
        and randomUUID = sampleUUID and st = stringifyIds and s = sampleApp,
        OF h1 sampleUUID_nonempty h3] e
    by (simp add: questions_handleImport length_validQuestions handleJsonImport_def sample_bank sampleRecords_def sampleRecord_def Let_def)
qed


subsection \<open>Importing through the generative-text service\<close>

lemma readReply_failure:
  assumes "case parse (cleanJsonString response) of None \<Rightarrow> True | Some v \<Rightarrow> \<not> hasQuestionsArray v"
  shows "readReply parse u failure response = Inl failure \<or>
         readReply parse u failure response = Inr []"
proof (cases "parse (cleanJsonString response)")
  case None
  then show ?thesis by (simp add: readReply_def)
next
  case (Some v)
  with assms have n: "\<not> hasQuestionsArray v" by simp
  show ?thesis
  proof (cases v)
    case (JObj kvs)
    show ?thesis
    proof (cases "map_of (rev kvs) (str ''questions'')")
      case None
      then show ?thesis using Some JObj by (simp add: readReply_def)
    next
      case (Some m)
      then show ?thesis
        using \<open>parse (cleanJsonString response) = Some v\<close> JObj n
        by (cases m) (simp_all add: readReply_def hasQuestionsArray_def)
    qed
  qed (use Some in \<open>simp_all add: readReply_def\<close>)
qed

text \<open>
  C7. When the reply of the service does not parse, or parses to anything but a JSON
  object containing a \<open>questions\<close> array, either AI import (from a topic or from raw
  text) ends with an error message set for the user, and the application state, the
  question bank and the storage with it, is unchanged.
\<close>

theorem ai_import_failure:
  assumes "trim (inputText imp) \<noteq> []"
    and "case parse (cleanJsonString response) of None \<Rightarrow> True | Some v \<Rightarrow> \<not> hasQuestionsArray v"
  shows "case handleAiProcessing st parse randomUUID (Inr response) imp s of (imp', s') \<Rightarrow>
     (error imp' = Some AiNoQuestions \<or> error imp' = Some AiFormatError \<or>
      error imp' = Some AiParseFailed) \<and>
     s' = s"
  using assms(1)
    readReply_failure [where parse = parse and response = response and u = randomUUID
      and failure = AiFormatError, OF assms(2)]
    readReply_failure [where parse = parse and response = response and u = randomUUID
      and failure = AiParseFailed, OF assms(2)]
  by (auto simp: handleAiProcessing_def generateQuestionsFromTopic_def parseRawTextToQuestions_def)

lemma clean_fenced: "cleanJsonString (str ''```json {} ```'') = str ''{}''"
  by code_simp

lemma clean_plain: "cleanJsonString (str ''Sorry, no.'') = str ''Sorry, no.''"
  by code_simp

lemma clean_bare:
  "cleanJsonString (str ''{\"questions\": 5}'') = str ''{\"questions\": 5}''"
  by code_simp

theorem ai_import_failure_witness:
  "trim (inputText sampleImporter) \<noteq> [] \<and>
   sampleParse (cleanJsonString (str ''Sorry, no.'')) = None \<and>
   sampleParse (cleanJsonString (str ''```json {} ```'')) = Some (JObj []) \<and>
   \<not> hasQuestionsArray (JObj [] :: ai_record jsval) \<and>
   handleAiProcessing stringifyIds sampleParse sampleUUID (Inr (str ''Sorry, no.'')) sampleImporter sampleApp
     = (sampleImporter\<lparr>isLoading := False, error := Some AiFormatError\<rparr>, sampleApp) \<and>
   handleAiProcessing stringifyIds sampleParse sampleUUID (Inr (str ''```json {} ```'')) sampleImporter sampleApp
     = (sampleImporter\<lparr>isLoading := False, error := Some AiNoQuestions\<rparr>, sampleApp) \<and>
   handleAiProcessing stringifyIds sampleParse sampleUUID (Inr (str ''{\"questions\": 5}''))
       (sampleImporter\<lparr>activeTab := AiText\<rparr>) sampleApp
     = (sampleImporter\<lparr>activeTab := AiText, isLoading := False, error := Some AiParseFailed\<rparr>,
        sampleApp)"
proof -
  have p3: "sampleParse (cleanJsonString (str ''{\"questions\": 5}'')) =
      Some (JObj [(str ''questions'', JNum 5)])"
    unfolding clean_bare by code_simp
  have n3: "\<not> hasQuestionsArray (JObj [(str ''questions'', JNum 5)] :: ai_record jsval)"
    by (simp add: hasQuestionsArray_def)
  have h4: "case sampleParse (cleanJsonString (str ''{\"questions\": 5}'')) of None \<Rightarrow> True
      | Some v \<Rightarrow> \<not> hasQuestionsArray v" by (simp add: p3 n3)
  have h5: "trim (inputText (sampleImporter\<lparr>activeTab := AiText\<rparr>)) \<noteq> []" by code_simp
  have h1: "trim (inputText sampleImporter) \<noteq> []" by code_simp
  have p1: "sampleParse (cleanJsonString (str ''Sorry, no.'')) = None"
    unfolding clean_plain by code_simp
  have p2: "sampleParse (cleanJsonString (str ''```json {} ```'')) = Some (JObj [])"
    unfolding clean_fenced by code_simp
  have n: "\<not> hasQuestionsArray (JObj [] :: ai_record jsval)" by (simp add: hasQuestionsArray_def)
  have h2: "case sampleParse (cleanJsonString (str ''Sorry, no.'')) of None \<Rightarrow> True
      | Some v \<Rightarrow> \<not> hasQuestionsArray v" by (simp add: p1)
  have h3: "case sampleParse (cleanJsonString (str ''```json {} ```'')) of None \<Rightarrow> True
      | Some v \<Rightarrow> \<not> hasQuestionsArray v" by (simp add: p2 n)
  show ?thesis
    using h1 p1 p2 p3 n
      ai_import_failure [where imp = "sampleImporter\<lparr>activeTab := AiText\<rparr>"
        and parse = sampleParse and response = "str ''{\"questions\": 5}''"
        and st = stringifyIds and randomUUID = sampleUUID and s = sampleApp, OF h5 h4]
      ai_import_failure [where imp = sampleImporter and parse = sampleParse
        and response = "str ''Sorry, no.''" and st = stringifyIds and randomUUID = sampleUUID
        and s = sampleApp, OF h1 h2]
      ai_import_failure [where imp = sampleImporter and parse = sampleParse
        and response = "str ''```json {} ```''" and st = stringifyIds and randomUUID = sampleUUID
        and s = sampleApp, OF h1 h3]
    by (simp add: handleAiProcessing_def generateQuestionsFromTopic_def parseRawTextToQuestions_def
        readReply_def sampleImporter_def)
qed


section \<open>Persistence\<close>

lemma persisted_saveQuestions: "persisted st (saveQuestions st qs s)"
  by (simp add: persisted_def saveQuestions_def)

text \<open>
  C8. Every operation that changes the question list (an import, a confirmed delete,
  marking a question mastered or mistaken, completing an exam with missed items) leaves
  under the storage key the serialisation of the list now in memory. A delete that is
  not confirmed and an exam without a missed item change nothing, so that the stored
  value still matches the list after them if it did before.
\<close>

theorem mutations_are_persisted:
  "persisted st (handleImport st newQs s) \<and>
   persisted st (handleDelete st True i s) \<and>
   handleDelete st False i s = s \<and>
   persisted st (handleMasterQuestion st i s) \<and>
   persisted st (handleMistake st i s) \<and>
   (wrong \<noteq> [] \<longrightarrow> persisted st (handleExamComplete st wrong s)) \<and>
   handleExamComplete st [] s = s \<and>
   (persisted st s \<longrightarrow> persisted st (fst (submitExam st lc s r)))"
proof -
  have "persisted st (handleImport st newQs s)"
    by (simp add: handleImport_def persisted_def saveQuestions_def Let_def)
  moreover have "persisted st (handleDelete st True i s)"
    by (simp add: handleDelete_def persisted_saveQuestions Let_def)
  moreover have "handleDelete st False i s = s"
    by (simp add: handleDelete_def)
  moreover have "persisted st (handleMasterQuestion st i s)"
    by (simp add: handleMasterQuestion_def persisted_saveQuestions Let_def)
  moreover have "persisted st (handleMistake st i s)"
    by (simp add: handleMistake_def persisted_saveQuestions Let_def)
  moreover have e: "persisted st (handleExamComplete st wrong s)" if "wrong \<noteq> []" for wrong
    using that by (simp add: handleExamComplete_def persisted_saveQuestions Let_def)
  moreover have z: "handleExamComplete st [] s = s"
    by (simp add: handleExamComplete_def)
  moreover have "persisted st (fst (submitExam st lc s r))" if "persisted st s"
  proof -
    from submitExam_cases [of st lc s r]
    consider "fst (submitExam st lc s r) = s"
      | w where "fst (submitExam st lc s r) = handleExamComplete st w s" by blast
    then show ?thesis
    proof cases
      case 1
      with that show ?thesis by simp
    next
      case (2 w)
      with that e [of w] z show ?thesis by (cases "w = []") simp_all
    qed
  qed
  ultimately show ?thesis by blast
qed

theorem mutations_are_persisted_witness:
  "persisted stringifyIds (handleMistake stringifyIds (str ''q3'') sampleApp) \<and>
   localStorage (handleMistake stringifyIds (str ''q3'') sampleApp) (str ''flashmaster_questions'')
     = Some (str ''q1q2q3'') \<and>
   [str ''q1''] \<noteq> [] \<and>
   persisted stringifyIds (handleExamComplete stringifyIds [str ''q1''] sampleApp) \<and>
   \<not> persisted stringifyIds sampleApp \<and>
   persisted stringifyIds (handleImport stringifyIds [] sampleApp) \<and>
   persisted stringifyIds
     (fst (submitExam stringifyIds toLowerCase_ascii (handleImport stringifyIds [] sampleApp) sampleRunner))"
proof -
  note t = mutations_are_persisted [of stringifyIds "[]" sampleApp "str ''q3''" "[str ''q1'']"
      toLowerCase_ascii sampleRunner]
  note u = mutations_are_persisted [of stringifyIds "[]" "handleImport stringifyIds [] sampleApp"
      "str ''q3''" "[str ''q1'']" toLowerCase_ascii sampleRunner]
  have a: "localStorage (handleMistake stringifyIds (str ''q3'') sampleApp) (str ''flashmaster_questions'')
     = Some (str ''q1q2q3'')"
    using t by (simp add: sample_ids persisted_def LOCAL_STORAGE_KEY_def questions_handleMistake sample_bank
        stringifyIds_def str_def)
  have b: "\<not> persisted stringifyIds sampleApp"
    by (simp add: persisted_def sampleApp_def)
  from t u a b show ?thesis by simp
qed


section \<open>The two flags exclude each other\<close>

lemma flagsCleared_exclusive: "flagsCleared qs \<Longrightarrow> flagsExclusive qs"
  by (auto simp: flagsCleared_def flagsExclusive_def list_all_iff)

lemma flagsExclusive_append:
  "flagsExclusive (xs @ ys) \<longleftrightarrow> flagsExclusive xs \<and> flagsExclusive ys"
  by (simp add: flagsExclusive_def)

lemma flagsCleared_Nil: "flagsCleared []"
  by (simp add: flagsCleared_def)

lemma flagsCleared_validQuestions: "flagsCleared (validQuestions u k records)"
  by (induction records arbitrary: k)
     (simp_all add: flagsCleared_def jsonQuestion_def split: option.splits)

lemma flagsCleared_readReply:
  "readReply parse u failure response = Inr qs \<Longrightarrow> flagsCleared qs"
  by (auto simp: readReply_def flagsCleared_def aiQuestion_def list_all_iff in_set_enumerate_eq
      split: option.splits sum.splits jsval.splits if_splits)

text \<open>An import leaves the bank as it was or appends questions whose flags are both false.\<close>

lemma handleJsonImport_questions:
  "\<exists>qs. flagsCleared qs \<and>
     questions (snd (handleJsonImport st parse randomUUID imp s)) = questions s @ qs"
proof (cases "parse (inputText imp)")
  case Throws
  then have "questions (snd (handleJsonImport st parse randomUUID imp s)) = questions s @ []"
    by (simp add: questions_handleImport handleJsonImport_def)
  with flagsCleared_Nil show ?thesis by blast
next
  case (IsArray records)
  then have "questions (snd (handleJsonImport st parse randomUUID imp s)) =
      questions s @ validQuestions randomUUID 0 records"
    by (simp add: questions_handleImport handleJsonImport_def)
  with flagsCleared_validQuestions show ?thesis by blast
next
  case (NotArray single)
  then have "questions (snd (handleJsonImport st parse randomUUID imp s)) =
      questions s @ validQuestions randomUUID 0 [single]"
    by (simp add: questions_handleImport handleJsonImport_def del: validQuestions.simps)
  with flagsCleared_validQuestions show ?thesis by blast
qed

lemma handleAiProcessing_questions:
  "\<exists>qs. flagsCleared qs \<and>
     questions (snd (handleAiProcessing st parseReply randomUUID reply imp s)) = questions s @ qs"
proof -
  have "questions (snd (handleAiProcessing st parseReply randomUUID reply imp s)) = questions s @ [] \<or>
      (\<exists>qs. flagsCleared qs \<and> questions (snd (handleAiProcessing st parseReply randomUUID reply imp s)) =
          questions s @ qs)"
    by (auto simp: questions_handleImport handleAiProcessing_def generateQuestionsFromTopic_def
        parseRawTextToQuestions_def split: sum.splits dest: flagsCleared_readReply)
  with flagsCleared_Nil show ?thesis by blast
qed

lemma flagsExclusive_appended:
  assumes "flagsExclusive xs" and "\<exists>qs. flagsCleared qs \<and> ys = xs @ qs"
  shows "flagsExclusive ys \<and> flagsCleared (drop (length xs) ys)"
proof -
  from assms(2) obtain qs where qs: "flagsCleared qs" "ys = xs @ qs" by blast
  from qs(1) have "flagsExclusive qs" by (rule flagsCleared_exclusive)
  with assms(1) qs show ?thesis by (simp add: flagsExclusive_append)
qed

lemma flagsExclusive_handleExamComplete:
  "flagsExclusive (questions s) \<Longrightarrow> flagsExclusive (questions (handleExamComplete st wrong s))"
  by (auto simp: questions_handleExamComplete flagsExclusive_def list_all_iff)

lemma flagsExclusive_handleMasterQuestion:
  "flagsExclusive (questions s) \<Longrightarrow> flagsExclusive (questions (handleMasterQuestion st i s))"
  by (auto simp: questions_handleMasterQuestion flagsExclusive_def list_all_iff)

lemma flagsExclusive_handleMistake:
  "flagsExclusive (questions s) \<Longrightarrow> flagsExclusive (questions (handleMistake st i s))"
  by (auto simp: questions_handleMistake flagsExclusive_def list_all_iff)

lemma handleMasterQuestion_sets:
  "list_all (\<lambda>q. qid q = i \<longrightarrow> mastered q = Some True \<and> inMistakeBook q = Some False)
     (questions (handleMasterQuestion st i s))"
  unfolding questions_handleMasterQuestion list.pred_map by (simp add: list_all_iff)

lemma handleMistake_sets:
  "list_all (\<lambda>q. qid q = i \<longrightarrow> inMistakeBook q = Some True \<and> mastered q = Some False)
     (questions (handleMistake st i s))"
  unfolding questions_handleMistake list.pred_map by (simp add: list_all_iff)

lemma handleExamComplete_sets:
  "list_all (\<lambda>q. qid q \<in> set wrong \<longrightarrow> inMistakeBook q = Some True \<and> mastered q = Some False)
     (questions (handleExamComplete st wrong s))"
  unfolding questions_handleExamComplete list.pred_map by (simp add: list_all_iff)

text \<open>
  C10. Every operation that changes flags keeps the bank free of a question that is both
  mastered and in the mistake book: marking a question mastered sets \<open>mastered\<close> true and
  \<open>inMistakeBook\<close> false together, marking it as a mistake and grading an exam set
  \<open>inMistakeBook\<close> true and \<open>mastered\<close> false together, and the JSON import and the AI
  imports append questions with both flags false.
\<close>

theorem flags_exclusive_preserved:
  assumes "flagsExclusive (questions s)"
  shows "flagsExclusive (questions (handleMasterQuestion st i s)) \<and>
     flagsExclusive (questions (handleMistake st i s)) \<and>
     flagsExclusive (questions (handleExamComplete st wrong s)) \<and>
     flagsExclusive (questions (fst (submitExam st lc s r))) \<and>
     (flagsExclusive (questions (snd (handleJsonImport st parse randomUUID imp s))) \<and>
      flagsCleared (drop (length (questions s))
        (questions (snd (handleJsonImport st parse randomUUID imp s))))) \<and>
     (flagsExclusive (questions (snd (handleAiProcessing st parseReply randomUUID reply imp s))) \<and>
      flagsCleared (drop (length (questions s))
        (questions (snd (handleAiProcessing st parseReply randomUUID reply imp s))))) \<and>
     list_all (\<lambda>q. qid q = i \<longrightarrow> mastered q = Some True \<and> inMistakeBook q = Some False)
       (questions (handleMasterQuestion st i s)) \<and>
     list_all (\<lambda>q. qid q = i \<longrightarrow> inMistakeBook q = Some True \<and> mastered q = Some False)
       (questions (handleMistake st i s)) \<and>
     list_all (\<lambda>q. qid q \<in> set wrong \<longrightarrow> inMistakeBook q = Some True \<and> mastered q = Some False)
       (questions (handleExamComplete st wrong s))"
proof -
  have 1: "flagsExclusive (questions (fst (submitExam st lc s r)))"
  proof -
    from submitExam_cases [of st lc s r]
    consider "fst (submitExam st lc s r) = s"
      | w where "fst (submitExam st lc s r) = handleExamComplete st w s" by blast
    then show ?thesis
    proof cases
      case 1
      with assms show ?thesis by simp
    next
      case (2 w)
      show ?thesis unfolding 2 using assms by (rule flagsExclusive_handleExamComplete)
    qed
  qed
  note j = flagsExclusive_appended [OF assms handleJsonImport_questions,
      of st parse randomUUID imp]
  note a = flagsExclusive_appended [OF assms handleAiProcessing_questions,
      of st parseReply randomUUID reply imp]
  show ?thesis
    apply (intro conjI)
    apply (rule flagsExclusive_handleMasterQuestion [OF assms])
    apply (rule flagsExclusive_handleMistake [OF assms])
    apply (rule flagsExclusive_handleExamComplete [OF assms])
    apply (rule 1)
    apply (rule j [THEN conjunct1])
    apply (rule j [THEN conjunct2])
    apply (rule a [THEN conjunct1])
    apply (rule a [THEN conjunct2])
    apply (rule handleMasterQuestion_sets)
    apply (rule handleMistake_sets)
    apply (rule handleExamComplete_sets)
    done
qed


lemma sample_flags_exclusive: "flagsExclusive (questions sampleApp)"
  by (simp add: flagsExclusive_def sample_bank sampleQuestion_def)

theorem flags_exclusive_preserved_witness:
  "flagsExclusive (questions sampleApp) \<and>
   flagsExclusive (questions (handleMasterQuestion stringifyIds (str ''q1'') sampleApp)) \<and>
   flagsExclusive (questions (handleMistake stringifyIds (str ''q2'') sampleApp)) \<and>
   flagsExclusive (questions (fst (submitExam stringifyIds toLowerCase_ascii sampleApp sampleRunner))) \<and>
   flagsExclusive (questions (snd (handleJsonImport stringifyIds (\<lambda>t. IsArray sampleRecords)
     sampleUUID sampleImporter sampleApp))) \<and>
   map (\<lambda>q. (mastered q, inMistakeBook q)) (questions (snd (handleJsonImport stringifyIds
     (\<lambda>t. IsArray sampleRecords) sampleUUID sampleImporter sampleApp))) =
     [(None, Some True), (Some True, None), (None, None),
      (Some False, Some False), (Some False, Some False), (Some False, Some False)]"
proof -
  note t = flags_exclusive_preserved [OF sample_flags_exclusive, of stringifyIds "str ''q1''"
      "[str ''q1'']" toLowerCase_ascii sampleRunner "\<lambda>t. IsArray sampleRecords" sampleUUID
      sampleImporter sampleParse "Inr (str ''{}'')"]
  note u = flags_exclusive_preserved [OF sample_flags_exclusive, of stringifyIds "str ''q2''"
      "[str ''q1'']" toLowerCase_ascii sampleRunner "\<lambda>t. IsArray sampleRecords" sampleUUID
      sampleImporter sampleParse "Inr (str ''{}'')"]
  have e: "map (\<lambda>q. (mastered q, inMistakeBook q)) (questions (snd (handleJsonImport stringifyIds
     (\<lambda>t. IsArray sampleRecords) sampleUUID sampleImporter sampleApp))) =
     [(None, Some True), (Some True, None), (None, None),
      (Some False, Some False), (Some False, Some False), (Some False, Some False)]"
    by (simp add: questions_handleImport handleJsonImport_def sample_bank sampleRecords_def sampleRecord_def
        jsonQuestion_def sampleQuestion_def)
  from t u e sample_flags_exclusive show ?thesis by simp
qed


end
